theory Spec2Isabelle
  imports Complex_Main "HOL-Library.Multiset"
begin

section \<open>JavaScript values and array primitives\<close>

text \<open>
  The draw engine is the class \<open>Slot\<close> of \<open>src/assets/js/app.ts\<close> (lines 232 to 598).
  A JavaScript value that may be \<open>undefined\<close> is an \<open>option\<close>: \<open>None\<close> is
  \<open>undefined\<close>. A dense array is a list; reading outside its bounds gives \<open>undefined\<close>.
  A JavaScript number that holds a count or an index is an \<open>int\<close> or a \<open>nat\<close>; the
  value of \<open>Math.random()\<close> is a \<open>real\<close> and the product \<open>Math.random() * n\<close> is
  taken exactly.
\<close>

definition array_get :: "'a list \<Rightarrow> int \<Rightarrow> 'a option" where
  \<comment> \<open>\<open>array[i]\<close> for an integer \<open>i\<close>\<close>
  "array_get xs i = (if 0 \<le> i \<and> i < int (length xs) then Some (xs ! nat i) else None)"

definition array_at :: "'a list \<Rightarrow> nat option \<Rightarrow> 'a option" where
  \<comment> \<open>\<open>array[key]\<close> where \<open>key\<close> itself may be \<open>undefined\<close>\<close>
  "array_at xs key = (case key of None \<Rightarrow> None | Some j \<Rightarrow> array_get xs (int j))"

definition js_last :: "'a option list \<Rightarrow> 'a option" where
  \<comment> \<open>\<open>xs[xs.length - 1]\<close>: \<open>undefined\<close> on the empty array\<close>
  "js_last xs = (if xs = [] then None else last xs)"

definition to_int32 :: "real \<Rightarrow> int" where
  \<comment> \<open>\<open>x | 0\<close>: truncate toward zero, then wrap into the signed 32-bit range\<close>
  "to_int32 x =
     (let t = (if 0 \<le> x then \<lfloor>x\<rfloor> else \<lceil>x\<rceil>);
          m = t mod 2 ^ 32
      in if m < 2 ^ 31 then m else m - 2 ^ 32)"

definition slice0 :: "'a list \<Rightarrow> int \<Rightarrow> 'a list" where
  \<comment> \<open>\<open>xs.slice(0, e)\<close>: a negative end counts from the end of the array\<close>
  "slice0 xs e =
     (let len = int (length xs);
          final = (if e < 0 then max (len + e) 0 else min e len)
      in take (nat final) xs)"

definition splice1 :: "int \<Rightarrow> 'a list \<Rightarrow> 'a list" where
  \<comment> \<open>\<open>xs.splice(start, 1)\<close>: a negative start counts from the end, so \<open>-1\<close> deletes the
      last element\<close>
  "splice1 start xs =
     (let len = int (length xs);
          st = nat (if start < 0 then max (len + start) 0 else min start len)
      in take st xs @ drop (Suc st) xs)"

fun findIndex :: "('a \<Rightarrow> bool) \<Rightarrow> 'a list \<Rightarrow> int" where
  \<comment> \<open>\<open>xs.findIndex(P)\<close>: the first index whose element satisfies \<open>P\<close>, or \<open>-1\<close>\<close>
  "findIndex P [] = -1"
| "findIndex P (x # xs) = (if P x then 0 else (let r = findIndex P xs in if r < 0 then -1 else r + 1))"

definition to_str :: "string option \<Rightarrow> string" where
  \<comment> \<open>a value inside a template literal: \<open>undefined\<close> prints as the word\<close>
  "to_str v = (case v of None \<Rightarrow> ''undefined'' | Some s \<Rightarrow> s)"

definition number_of_bool :: "bool \<Rightarrow> int" where
  \<comment> \<open>\<open>Number(b)\<close>\<close>
  "number_of_bool b = (if b then 1 else 0)"

section \<open>The shuffle routines\<close>

text \<open>
  \<open>shuffleNames\<close> (lines 411 to 425) and \<open>shuffleLuckyMoneys\<close> (lines 433 to 447) have
  the same body. The variables of the loop are a record; \<open>sh_array\<close> is the parameter
  \<open>array\<close>, so that what the loop does to it is part of the model. \<open>keys\<close> is the
  array \<open>Object.keys(array)\<close>; the loop reads and writes it at computed indices, so it
  is a map from index to value, where an absent index reads as \<open>undefined\<close>.
  The random source is the sequence \<open>rnd\<close> of the values that successive calls of
  \<open>Math.random()\<close> return; \<open>p\<close> is the number of calls made so far.
\<close>

record 'a shuffle_vars =
  sh_array :: "'a list"
  sh_keys :: "int \<Rightarrow> nat option"
  sh_result :: "'a option list"
  sh_k :: nat
  sh_n :: nat

definition object_keys :: "'a list \<Rightarrow> int \<Rightarrow> nat option" where
  "object_keys xs = (\<lambda>i. if 0 \<le> i \<and> i < int (length xs) then Some (nat i) else None)"

definition shuffle_body :: "real \<Rightarrow> 'a shuffle_vars \<Rightarrow> 'a shuffle_vars" where
  "shuffle_body r v =
     (let i = to_int32 (r * real (sh_n v));
          key = sh_keys v i;
          result' = sh_result v @ [array_at (sh_array v) key];
          n' = sh_n v - 1;
          tmp = sh_keys v (int n');
          keys1 = (sh_keys v)(int n' := key);
          keys2 = keys1(i := tmp)
      in v\<lparr>sh_keys := keys2, sh_result := result', sh_k := sh_k v + 1, sh_n := n'\<rparr>)"

function shuffle_loop :: "(nat \<Rightarrow> real) \<Rightarrow> nat \<Rightarrow> 'a shuffle_vars \<Rightarrow> 'a shuffle_vars" where
  "shuffle_loop rnd p v =
     (if sh_k v < length (sh_array v) \<and> 0 < sh_n v
      then shuffle_loop rnd (Suc p) (shuffle_body (rnd p) v)
      else v)"
  by pat_completeness auto
termination
  by (relation "measure (\<lambda>(rnd, p, v). sh_n v)") (auto simp: shuffle_body_def Let_def)

declare shuffle_loop.simps [simp del]

definition shuffle_init :: "'a list \<Rightarrow> 'a shuffle_vars" where
  "shuffle_init array =
     \<lparr>sh_array = array, sh_keys = object_keys array, sh_result = [], sh_k = 0,
      sh_n = length array\<rparr>"

definition shuffleNames_vars :: "(nat \<Rightarrow> real) \<Rightarrow> nat \<Rightarrow> 'a list \<Rightarrow> 'a shuffle_vars" where
  \<comment> \<open>the variables of \<open>shuffleNames\<close> when it returns\<close>
  "shuffleNames_vars rnd p array = shuffle_loop rnd p (shuffle_init array)"

definition shuffleNames :: "(nat \<Rightarrow> real) \<Rightarrow> nat \<Rightarrow> 'a list \<Rightarrow> 'a option list" where
  "shuffleNames rnd p array = sh_result (shuffleNames_vars rnd p array)"

definition shuffleLuckyMoneys_vars :: "(nat \<Rightarrow> real) \<Rightarrow> nat \<Rightarrow> 'a list \<Rightarrow> 'a shuffle_vars" where
  \<comment> \<open>the variables of \<open>shuffleLuckyMoneys\<close> when it returns\<close>
  "shuffleLuckyMoneys_vars rnd p array = shuffle_loop rnd p (shuffle_init array)"

definition shuffleLuckyMoneys :: "(nat \<Rightarrow> real) \<Rightarrow> nat \<Rightarrow> 'a list \<Rightarrow> 'a option list" where
  "shuffleLuckyMoneys rnd p array = sh_result (shuffleLuckyMoneys_vars rnd p array)"

definition random_ok :: "(nat \<Rightarrow> real) \<Rightarrow> bool" where
  \<comment> \<open>the contract of \<open>Math.random()\<close>: every value is in the interval from 0 (inclusive)
      to 1 (exclusive)\<close>
  "random_ok rnd = (\<forall>j. 0 \<le> rnd j \<and> rnd j < 1)"


definition shuffle_inv :: "'a list \<Rightarrow> 'a shuffle_vars \<Rightarrow> bool" where
  \<comment> \<open>the loop invariant: the elements pushed so far, with the elements whose keys are
      still in the first \<open>n\<close> places of \<open>keys\<close>, are the elements of the array\<close>
  "shuffle_inv array v =
     (sh_array v = array \<and> sh_k v + sh_n v = length array \<and>
      mset (sh_result v) + mset (map (\<lambda>j. array_at array (sh_keys v (int j))) [0..<sh_n v])
        = mset (map Some array))"

section \<open>The state of a Slot and of its surroundings\<close>

text \<open>
  The fields of the class (lines 250 to 284). \<open>currentPlayer\<close> is declared a string but
  is assigned the last element of an array that may be empty, so it may be
  \<open>undefined\<close>. \<open>reelContainer\<close> is the element found by the selector, or \<open>null\<close>; of
  the element only its children matter, each the \<open>innerHTML\<close> of a reel item.
  A callback field records whether the caller supplied the function; what a callback does
  is the caller's, and calling it is an event. The model assumes that a callback does not
  call back into the Slot, and that nothing else touches the Slot or the page while
  \<open>spin\<close> is suspended. Arrays are values here: that the array given to a setter is
  shared with the caller, and spliced in place later, is not followed.
\<close>

datatype animation = Idle | Running | Finished

record slot =
  nameList :: "string list"
  currentPlayer :: "string option"
  luckyMoneyList :: "string list"
  drawHistory :: "string list"
  havePreviousWinner :: bool
  reelContainer :: "string list option"
  maxReelItems :: int
  shouldRemoveWinner :: bool
  reelAnimation :: "animation option"
  onSpinStart :: bool
  onSpinEnd :: bool
  onNameListChanged :: bool

text \<open>
  The callbacks are the five functions that the page script defines and passes to the
  constructor (lines 96 to 137).
\<close>

datatype callback = OnSpinStart | OnSpinNameStart | OnSpinNameEnd | OnSpinEnd | OnNameListChanged

datatype event =
    Callback callback
  | ConsoleError
  | ConsoleLog
  | Timeout nat
  | AnimationPlay
  | AnimationFinish

text \<open>
  The text of the element with the id \<open>current-player\<close>: what the page shows at first,
  \<open>Selecting...\<close> followed by a name, or a name between two stars.
\<close>

datatype player_text = PageText | Selecting "string option" | Star "string option"

text \<open>
  What is outside the Slot: the events so far, in order; the number of calls of
  \<open>Math.random()\<close> so far; the element with the id \<open>current-player\<close>, \<open>None\<close> when the
  page has none.
\<close>

record world =
  events :: "event list"
  random_calls :: nat
  currentPlayerElement :: "player_text option"

datatype error = TypeError

definition emit :: "event \<Rightarrow> world \<Rightarrow> world" where
  "emit e w = w\<lparr>events := events w @ [e]\<rparr>"

fun callbacks_of :: "event list \<Rightarrow> callback list" where
  "callbacks_of [] = []"
| "callbacks_of (Callback c # es) = c # callbacks_of es"
| "callbacks_of (_ # es) = callbacks_of es"

section \<open>Constructor and setters\<close>

text \<open>
  The object given to the constructor. \<open>cfg_reelContainer\<close> is what
  \<open>document.querySelector(reelContainerSelector)\<close> finds. The page script also passes
  \<open>onSpinNameStart\<close> and \<open>onSpinNameEnd\<close> (lines 134 and 135); the constructor's
  parameter pattern (lines 295 to 302) does not name them.
\<close>

record slot_configurations =
  cfg_maxReelItems :: "int option"
  cfg_removeWinner :: "bool option"
  cfg_reelContainer :: "string list option"
  cfg_onSpinStart :: bool
  cfg_onSpinEnd :: bool
  cfg_onSpinNameStart :: bool
  cfg_onSpinNameEnd :: bool
  cfg_onNameListChanged :: bool

definition new_Slot :: "slot_configurations \<Rightarrow> slot" where
  "new_Slot cfg =
     \<lparr>nameList = [],
      currentPlayer = Some [],
      luckyMoneyList = [],
      drawHistory = [],
      havePreviousWinner = False,
      reelContainer = cfg_reelContainer cfg,
      maxReelItems = (case cfg_maxReelItems cfg of None \<Rightarrow> 30 | Some m \<Rightarrow> m),
      shouldRemoveWinner = (case cfg_removeWinner cfg of None \<Rightarrow> True | Some b \<Rightarrow> b),
      reelAnimation = (case cfg_reelContainer cfg of None \<Rightarrow> None | Some _ \<Rightarrow> Some Idle),
      onSpinStart = cfg_onSpinStart cfg,
      onSpinEnd = cfg_onSpinEnd cfg,
      onNameListChanged = cfg_onNameListChanged cfg\<rparr>"

definition set_names :: "string list \<Rightarrow> slot \<Rightarrow> world \<Rightarrow> slot \<times> world" where
  "set_names names s w =
     (let s1 = s\<lparr>nameList := names\<rparr>;
          s2 = s1\<lparr>reelContainer := map_option (\<lambda>_. []) (reelContainer s1)\<rparr>;
          s3 = s2\<lparr>havePreviousWinner := False\<rparr>
      in (s3, if onNameListChanged s3 then emit (Callback OnNameListChanged) w else w))"

definition set_currentPlayerName :: "string \<Rightarrow> slot \<Rightarrow> world \<Rightarrow> slot \<times> world" where
  "set_currentPlayerName name s w = (s\<lparr>currentPlayer := Some name\<rparr>, w)"

definition set_luckyMoneys :: "string list \<Rightarrow> slot \<Rightarrow> world \<Rightarrow> slot \<times> world" where
  "set_luckyMoneys luckyMoneys s w = (s\<lparr>luckyMoneyList := luckyMoneys\<rparr>, w)"

definition set_drawHistories :: "string list \<Rightarrow> slot \<Rightarrow> world \<Rightarrow> slot \<times> world" where
  "set_drawHistories histories s w = (s\<lparr>drawHistory := histories\<rparr>, w)"

definition set_shouldRemoveWinnerFromNameList :: "bool \<Rightarrow> slot \<Rightarrow> world \<Rightarrow> slot \<times> world" where
  "set_shouldRemoveWinnerFromNameList removeWinner s w = (s\<lparr>shouldRemoveWinner := removeWinner\<rparr>, w)"

section \<open>Building the reel sequence\<close>

text \<open>
  The \<open>while\<close> loop of lines 484 to 486 and 531 to 533: the array is appended to itself
  until it has \<open>maxReelItems\<close> elements; an empty array leaves the loop at once.
\<close>

function duplicate_until :: "int \<Rightarrow> 'a list \<Rightarrow> 'a list" where
  "duplicate_until m xs =
     (if xs \<noteq> [] \<and> int (length xs) < m then duplicate_until m (xs @ xs) else xs)"
  by pat_completeness auto
termination
  by (relation "measure (\<lambda>(m, xs). nat (m - int (length xs)))") auto

declare duplicate_until.simps [simp del]

definition reel_sequence :: "int \<Rightarrow> bool \<Rightarrow> 'a list \<Rightarrow> 'a list" where
  \<comment> \<open>the loop and the \<open>slice\<close> after it (lines 484 to 488, and 531 to 538)\<close>
  "reel_sequence m prev xs = slice0 (duplicate_until m xs) (m - number_of_bool prev)"

section \<open>spinName\<close>

text \<open>
  The \<open>for\<close> loop of lines 497 to 502: it shows a random name and waits, \<open>names.length * 6\<close>
  times. A timer that was set is assumed to fire.
\<close>

function selecting_loop :: "(nat \<Rightarrow> real) \<Rightarrow> string list \<Rightarrow> nat \<Rightarrow> world \<Rightarrow> world" where
  "selecting_loop rnd names i w =
     (if i < length names * 6
      then selecting_loop rnd names (Suc i)
             (emit (Timeout (20 * (i + 1)))
               (w\<lparr>currentPlayerElement :=
                    Some (Selecting (array_get names \<lfloor>rnd (random_calls w) * real (length names)\<rfloor>)),
                  random_calls := Suc (random_calls w)\<rparr>))
      else w)"
  by pat_completeness auto
termination
  by (relation "measure (\<lambda>(rnd, names, i, w). length names * 6 - i)") auto

declare selecting_loop.simps [simp del]

text \<open>
  \<open>spinName\<close> (lines 475 to 506). When the page has no element with the id
  \<open>current-player\<close>, the first assignment to its \<open>textContent\<close> throws; the loop is
  entered because the name list is not empty. Whether the right-hand side of that
  assignment calls \<open>Math.random()\<close> before the throw is not modelled: the count of calls
  in the rejected run is the count after the shuffle. The method \<open>beforeSpin\<close> (lines 449
  to 473) is called by nothing and is left out.
\<close>

definition spinName :: "(nat \<Rightarrow> real) \<Rightarrow> slot \<Rightarrow> world \<Rightarrow> (error + bool) \<times> slot \<times> world" where
  "spinName rnd s w =
     (if nameList s = [] then (Inr False, s, emit ConsoleError w)
      else
        let vars = shuffleNames_vars rnd (random_calls w) (nameList s);
            w1 = w\<lparr>random_calls := random_calls w + sh_k vars\<rparr>;
            randomNames = reel_sequence (maxReelItems s) (havePreviousWinner s) (sh_result vars);
            playerName = js_last randomNames;
            s1 = s\<lparr>currentPlayer := playerName\<rparr>
        in case currentPlayerElement w1 of
             None \<Rightarrow> (Inl TypeError, s1, w1)
           | Some _ \<Rightarrow>
               (let w2 = selecting_loop rnd (nameList s1) 0 w1
                in (Inr True, s1, w2\<lparr>currentPlayerElement := Some (Star playerName)\<rparr>)))"

section \<open>spin\<close>

definition remove_winner :: "string option \<Rightarrow> slot \<Rightarrow> slot" where
  \<comment> \<open>the body of \<open>if (shouldRemoveWinner)\<close>, lines 557 to 569\<close>
  "remove_winner playerLuckyMoney s =
     (let names' = splice1 (findIndex (\<lambda>name. Some name = currentPlayer s) (nameList s)) (nameList s);
          moneys' = splice1 (findIndex (\<lambda>luckyMoney. Some luckyMoney = playerLuckyMoney)
                      (luckyMoneyList s)) (luckyMoneyList s);
          history1 = drawHistory s @ [to_str (currentPlayer s) @ '' - '' @ to_str playerLuckyMoney];
          history2 = (if names' = [] \<and> moneys' = [] then history1 @ [''-------END-------'']
                      else history1)
      in s\<lparr>nameList := names', luckyMoneyList := moneys', drawHistory := history2\<rparr>)"

text \<open>
  \<open>spin\<close> (lines 512 to 598) is suspended at \<open>await animationPromise\<close> (line 582) until
  the animation's finish event. \<open>spin_to_await\<close> is the run up to that point: its first
  component is \<open>Some r\<close> when the promise settled before (\<open>Inr b\<close>: resolved with
  \<open>b\<close>; \<open>Inl e\<close>: rejected with \<open>e\<close>), and \<open>None\<close> when the run is suspended there.
  \<open>spin_after_await\<close> is the run from the finish event on.
\<close>

definition spin_to_await ::
  "(nat \<Rightarrow> real) \<Rightarrow> slot \<Rightarrow> world \<Rightarrow> (error + bool) option \<times> slot \<times> world" where
  "spin_to_await rnd s w =
     (if nameList s = [] \<and> luckyMoneyList s = [] then (Some (Inr False), s, emit ConsoleError w)
      else
        let w1 = (if onSpinStart s then emit (Callback OnSpinStart) w else w)
        in case spinName rnd s w1 of
             (Inl e, s2, w2) \<Rightarrow> (Some (Inl e), s2, w2)
           | (Inr _, s2, w2) \<Rightarrow>
               (case (reelContainer s2, reelAnimation s2) of
                  (Some children, Some _) \<Rightarrow>
                    (let vars = shuffleLuckyMoneys_vars rnd (random_calls w2) (luckyMoneyList s2);
                         w3 = w2\<lparr>random_calls := random_calls w2 + sh_k vars\<rparr>;
                         randomLuckyMoneys =
                           reel_sequence (maxReelItems s2) (havePreviousWinner s2) (sh_result vars);
                         playerLuckyMoney = js_last randomLuckyMoneys;
                         s3 = s2\<lparr>reelContainer := Some (children @ map to_str randomLuckyMoneys)\<rparr>;
                         w4 = emit ConsoleLog (emit ConsoleLog w3);
                         s4 = (if shouldRemoveWinner s2 then remove_winner playerLuckyMoney s3 else s3);
                         w5 = emit ConsoleLog (emit ConsoleLog w4);
                         s5 = s4\<lparr>reelAnimation := Some Running\<rparr>;
                         w6 = emit AnimationPlay w5
                     in (None, s5, w6))
                | _ \<Rightarrow> (Some (Inr False), s2, w2)))"

definition trim_reel :: "string list \<Rightarrow> string list" where
  \<comment> \<open>lines 588 to 590: every child but the last is removed\<close>
  "trim_reel children = drop (length (slice0 children (int (length children) - 1))) children"

definition spin_after_await :: "slot \<Rightarrow> world \<Rightarrow> (error + bool) \<times> slot \<times> world" where
  "spin_after_await s w =
     (let w1 = emit AnimationFinish w;
          s1 = s\<lparr>reelAnimation := Some Finished\<rparr>;
          s2 = s1\<lparr>reelContainer := map_option trim_reel (reelContainer s1)\<rparr>;
          s3 = s2\<lparr>havePreviousWinner := True\<rparr>;
          w2 = (if onSpinEnd s3 then emit (Callback OnSpinEnd) w1 else w1)
      in (Inr True, s3, w2))"

text \<open>
  A whole call of \<open>spin\<close>, in a run where the finish event of a played animation arrives.
\<close>

definition spin :: "(nat \<Rightarrow> real) \<Rightarrow> slot \<Rightarrow> world \<Rightarrow> (error + bool) \<times> slot \<times> world" where
  "spin rnd s w =
     (case spin_to_await rnd s w of
        (Some r, s', w') \<Rightarrow> (r, s', w')
      | (None, s', w') \<Rightarrow> spin_after_await s' w')"


section \<open>Concrete inputs\<close>

text \<open>
  The inputs at which the theorems below are evaluated. \<open>page_config\<close> is the object
  that the page script gives to the constructor (lines 129 to 137, with
  \<open>MAX_REEL_ITEMS = 40\<close>), on a page whose element \<open>#reel\<close> exists and has no children;
  \<open>page_world\<close> is a page that has the element \<open>current-player\<close>, with an empty log.
  \<open>slot_with cfg names luckyMoneys\<close> is the Slot made by \<open>new Slot(cfg)\<close> after the two
  assignments \<open>slot.names = names\<close> and \<open>slot.luckyMoneys = luckyMoneys\<close> of the
  settings form (lines 215 to 220). \<open>always_zero\<close> and \<open>always_half\<close> are random sources.
\<close>

definition page_config :: slot_configurations where
  "page_config =
     \<lparr>cfg_maxReelItems = Some 40, cfg_removeWinner = None, cfg_reelContainer = Some [],
      cfg_onSpinStart = True, cfg_onSpinEnd = True, cfg_onSpinNameStart = True,
      cfg_onSpinNameEnd = True, cfg_onNameListChanged = True\<rparr>"

definition page_world :: world where
  "page_world = \<lparr>events = [], random_calls = 0, currentPlayerElement = Some PageText\<rparr>"

definition slot_with :: "slot_configurations \<Rightarrow> string list \<Rightarrow> string list \<Rightarrow> slot" where
  "slot_with cfg names luckyMoneys =
     fst (set_luckyMoneys luckyMoneys (fst (set_names names (new_Slot cfg) page_world)) page_world)"

definition always_zero :: "nat \<Rightarrow> real" where
  "always_zero j = 0"

definition always_half :: "nat \<Rightarrow> real" where
  "always_half j = 1 / 2"

text \<open>
  Two draws in a row from a Slot whose reel holds one item: \<open>first_draw\<close> is the
  outcome of the first call of \<open>spin\<close>, \<open>second_draw\<close> of the second.
\<close>

definition first_draw :: "(error + bool) \<times> slot \<times> world" where
  "first_draw =
     spin always_zero
       (slot_with (page_config\<lparr>cfg_maxReelItems := Some 1\<rparr>) [''A'', ''B''] [''X'', ''Y''])
       page_world"

definition second_draw :: "(error + bool) \<times> slot \<times> world" where
  "second_draw = spin always_zero (fst (snd first_draw)) (snd (snd first_draw))"

text \<open>
  The same two draws from a Slot with three names and no prize.
\<close>

definition first_draw_no_prize :: "(error + bool) \<times> slot \<times> world" where
  "first_draw_no_prize =
     spin always_zero
       (slot_with (page_config\<lparr>cfg_maxReelItems := Some 1\<rparr>) [''A'', ''B'', ''C''] [])
       page_world"

definition second_draw_no_prize :: "(error + bool) \<times> slot \<times> world" where
  "second_draw_no_prize =
     spin always_zero (fst (snd first_draw_no_prize)) (snd (snd first_draw_no_prize))"

section \<open>Properties of the shuffle\<close>

text \<open>
  With a value of \<open>Math.random()\<close> in its range and fewer than \<open>2 ^ 31\<close> remaining keys,
  the index \<open>Math.random() * n | 0\<close> is one of the first \<open>n\<close> places of \<open>keys\<close>.
\<close>

lemma to_int32_index:
  assumes "0 \<le> r" "r < 1" "0 < n" "n < 2 ^ 31"
  shows "0 \<le> to_int32 (r * real n) \<and> to_int32 (r * real n) < int n"
proof -
  define j where "j = \<lfloor>r * real n\<rfloor>"
  have nn: "0 \<le> r * real n" using assms by simp
  have lt: "r * real n < real n" using assms by simp
  have f0: "0 \<le> j" using nn by (simp add: j_def)
  have f1: "j < int n" using lt by (simp add: j_def floor_less_iff)
  have f2: "int n < 2147483648" using assms(4) by simp
  have m: "j mod 4294967296 = j"
    by (rule mod_pos_pos_trivial) (use f0 f1 f2 in linarith)+
  have "to_int32 (r * real n) = (if j mod 2 ^ 32 < 2 ^ 31 then j mod 2 ^ 32 else j mod 2 ^ 32 - 2 ^ 32)"
    unfolding to_int32_def Let_def j_def using nn by simp
  also have "\<dots> = j" using m f1 f2 by simp
  finally show ?thesis using f0 f1 by simp
qed

lemma upt_split_at:
  assumes "i < n"
  shows "[0..<n] = [0..<i] @ i # [Suc i..<n]"
proof -
  have "[0..<i + (n - i)] = [0..<i] @ [i..<i + (n - i)]"
    by (rule upt_add_eq_append) simp
  then have "[0..<n] = [0..<i] @ [i..<n]" using assms by simp
  then show ?thesis using assms by (simp add: upt_conv_Cons)
qed

lemma mset_map_swap_out_lt:
  assumes "i < n"
  shows "mset (map (f(i := f n)) [0..<n]) + {#f i#} = mset (map f [0..<Suc n])"
proof -
  have sp: "[0..<n] = [0..<i] @ i # [Suc i..<n]"
    using assms by (rule upt_split_at)
  have a: "map (f(i := f n)) [0..<i] = map f [0..<i]" by simp
  have b: "map (f(i := f n)) [Suc i..<n] = map f [Suc i..<n]" by simp
  have "mset (map (f(i := f n)) [0..<n]) + {#f i#}
      = mset (map f [0..<i]) + {#f n#} + mset (map f [Suc i..<n]) + {#f i#}"
    by (subst sp) (simp only: map_append list.map a b, simp)
  also have "\<dots> = mset (map f ([0..<i] @ i # [Suc i..<n])) + {#f n#}"
    by simp
  also have "\<dots> = mset (map f [0..<Suc n])"
    by (simp only: sp[symmetric], simp)
  finally show ?thesis .
qed


lemma mset_map_swap_out:
  assumes "i \<le> n"
  shows "mset (map (f(i := f n)) [0..<n]) + {#f i#} = mset (map f [0..<Suc n])"
proof (cases "i = n")
  case True
  then show ?thesis by simp
next
  case False
  with assms have "i < n" by simp
  then show ?thesis by (rule mset_map_swap_out_lt)
qed

lemma shuffle_body_array: "sh_array (shuffle_body r v) = sh_array v"
  by (simp add: shuffle_body_def Let_def)

lemma shuffle_loop_step:
  "sh_k v < length (sh_array v) \<and> 0 < sh_n v \<Longrightarrow>
   shuffle_loop rnd p v = shuffle_loop rnd (Suc p) (shuffle_body (rnd p) v)"
  by (subst shuffle_loop.simps) (simp only: if_True simp_thms)

lemma shuffle_loop_stop:
  "\<not> (sh_k v < length (sh_array v) \<and> 0 < sh_n v) \<Longrightarrow> shuffle_loop rnd p v = v"
  by (subst shuffle_loop.simps) (simp only: if_False simp_thms)

lemma shuffle_loop_array: "sh_array (shuffle_loop rnd p v) = sh_array v"
proof (induction rnd p v rule: shuffle_loop.induct)
  case (1 rnd p v)
  show ?case
  proof (cases "sh_k v < length (sh_array v) \<and> 0 < sh_n v")
    case True
    then have "shuffle_loop rnd p v = shuffle_loop rnd (Suc p) (shuffle_body (rnd p) v)"
      by (rule shuffle_loop_step)
    with 1 True show ?thesis by (simp add: shuffle_body_array)
  next
    case False
    then show ?thesis by (simp add: shuffle_loop_stop)
  qed
qed

lemma shuffle_body_inv:
  assumes inv: "shuffle_inv array v" and r: "0 \<le> r" "r < 1"
    and n: "0 < sh_n v" "sh_n v < 2 ^ 31"
  shows "shuffle_inv array (shuffle_body r v)"
proof -
  define n' where "n' = sh_n v - 1"
  define i where "i = to_int32 (r * real (sh_n v))"
  define i' where "i' = nat i"
  define g where "g = (\<lambda>j. array_at array (sh_keys v (int j)))"
  define keys2 where "keys2 = ((sh_keys v)(int n' := sh_keys v i))(i := sh_keys v (int n'))"
  have sn: "sh_n v = Suc n'" using n(1) by (simp add: n'_def)
  have irange: "0 \<le> i \<and> i < int (sh_n v)"
    unfolding i_def using r n by (rule to_int32_index)
  then have i'le: "i' \<le> n'" and ii': "i = int i'" unfolding i'_def sn by linarith+
  have body: "shuffle_body r v =
      v\<lparr>sh_keys := keys2, sh_result := sh_result v @ [array_at (sh_array v) (sh_keys v i)],
        sh_k := sh_k v + 1, sh_n := n'\<rparr>"
    by (simp add: shuffle_body_def Let_def keys2_def i_def n'_def)
  have arr: "sh_array v = array" and kn: "sh_k v + sh_n v = length array"
    and ms: "mset (sh_result v) + mset (map g [0..<sh_n v]) = mset (map Some array)"
    using inv by (simp_all add: shuffle_inv_def g_def)
  have g2: "map (\<lambda>j. array_at array (keys2 (int j))) [0..<n'] = map (g(i' := g n')) [0..<n']"
    by (rule map_cong) (auto simp: keys2_def g_def ii')
  have "mset (sh_result v @ [array_at array (sh_keys v i)])
          + mset (map (\<lambda>j. array_at array (keys2 (int j))) [0..<n'])
        = mset (sh_result v) + (mset (map (g(i' := g n')) [0..<n']) + {#g i'#})"
    by (simp add: g2) (simp add: g_def ii')
  also have "\<dots> = mset (sh_result v) + mset (map g [0..<Suc n'])"
    using i'le by (simp only: mset_map_swap_out)
  also have "\<dots> = mset (map Some array)" using ms by (simp add: sn)
  finally have ms': "mset (sh_result v @ [array_at array (sh_keys v i)])
          + mset (map (\<lambda>j. array_at array (keys2 (int j))) [0..<n']) = mset (map Some array)" .
  show ?thesis
    unfolding shuffle_inv_def body using arr kn ms' by (simp add: sn)
qed

lemma shuffle_loop_inv:
  "random_ok rnd \<Longrightarrow> shuffle_inv array v \<Longrightarrow> sh_n v < 2 ^ 31 \<Longrightarrow>
   shuffle_inv array (shuffle_loop rnd p v) \<and> sh_n (shuffle_loop rnd p v) = 0"
proof (induction rnd p v rule: shuffle_loop.induct)
  case (1 rnd p v)
  show ?case
  proof (cases "sh_k v < length (sh_array v) \<and> 0 < sh_n v")
    case True
    have eq: "shuffle_loop rnd p v = shuffle_loop rnd (Suc p) (shuffle_body (rnd p) v)"
      using True by (rule shuffle_loop_step)
    have r: "0 \<le> rnd p" "rnd p < 1" using "1.prems"(1) by (simp_all add: random_ok_def)
    have inv': "shuffle_inv array (shuffle_body (rnd p) v)"
      using "1.prems"(2) r True "1.prems"(3) by (simp add: shuffle_body_inv)
    have n': "sh_n (shuffle_body (rnd p) v) < 2 ^ 31"
      using "1.prems"(3) by (simp add: shuffle_body_def Let_def)
    show ?thesis
      unfolding eq using "1.IH"[OF True "1.prems"(1) inv' n'] .
  next
    case False
    have eq: "shuffle_loop rnd p v = v"
      using False by (rule shuffle_loop_stop)
    have "sh_n v = 0"
      using False "1.prems"(2) by (auto simp: shuffle_inv_def)
    then show ?thesis using "1.prems"(2) by (simp add: eq)
  qed
qed

lemma shuffle_loop_length:
  "length (sh_result (shuffle_loop rnd p v)) = length (sh_result v) + min (length (sh_array v) - sh_k v) (sh_n v)"
proof (induction rnd p v rule: shuffle_loop.induct)
  case (1 rnd p v)
  show ?case
  proof (cases "sh_k v < length (sh_array v) \<and> 0 < sh_n v")
    case True
    have eq: "shuffle_loop rnd p v = shuffle_loop rnd (Suc p) (shuffle_body (rnd p) v)"
      using True by (rule shuffle_loop_step)
    show ?thesis
      unfolding eq "1.IH"[OF True] using True by (auto simp: shuffle_body_def Let_def)
  next
    case False
    have eq: "shuffle_loop rnd p v = v"
      using False by (rule shuffle_loop_stop)
    show ?thesis using False by (auto simp: eq)
  qed
qed

lemma shuffle_init_inv: "shuffle_inv array (shuffle_init array)"
proof -
  have "map (\<lambda>j. array_at array (object_keys array (int j))) [0..<length array] = map Some array"
    by (rule nth_equalityI) (simp_all add: array_at_def object_keys_def array_get_def)
  then show ?thesis by (simp add: shuffle_inv_def shuffle_init_def)
qed

lemma shuffle_run_mset:
  assumes "random_ok rnd" "length array < 2 ^ 31"
  shows "mset (sh_result (shuffle_loop rnd p (shuffle_init array))) = mset (map Some array)"
proof -
  have n: "sh_n (shuffle_init array) < 2 ^ 31" using assms(2) by (simp add: shuffle_init_def)
  from shuffle_loop_inv[OF assms(1) shuffle_init_inv n, of p]
  show ?thesis by (auto simp: shuffle_inv_def)
qed

lemma shuffle_run_length:
  "length (sh_result (shuffle_loop rnd p (shuffle_init array))) = length array"
  by (simp add: shuffle_loop_length) (simp add: shuffle_init_def)


text \<open>
  Claim C6. Neither shuffle routine changes the array it is given, for any random values,
  and the array it returns has the length of the input. When the random values obey the
  contract of \<open>Math.random()\<close> and the array has fewer than \<open>2 ^ 31\<close> elements (the
  bound under which \<open>| 0\<close> does not wrap), the returned array is a permutation of the
  input: it has the same elements with the same multiplicities, none of them
  \<open>undefined\<close>.
\<close>

theorem shuffle_permutation_unchanged:
  "sh_array (shuffleNames_vars rnd p array) = array
   \<and> sh_array (shuffleLuckyMoneys_vars rnd p array) = array
   \<and> length (shuffleNames rnd p array) = length array
   \<and> length (shuffleLuckyMoneys rnd p array) = length array
   \<and> (random_ok rnd \<and> length array < 2 ^ 31 \<longrightarrow>
        mset (shuffleNames rnd p array) = mset (map Some array)
      \<and> mset (shuffleLuckyMoneys rnd p array) = mset (map Some array))"
proof -
  have a: "sh_array (shuffle_loop rnd p (shuffle_init array)) = array"
    by (simp add: shuffle_loop_array) (simp add: shuffle_init_def)
  show ?thesis
    unfolding shuffleNames_def shuffleNames_vars_def shuffleLuckyMoneys_def
      shuffleLuckyMoneys_vars_def
    using a by (simp add: shuffle_run_mset shuffle_run_length)
qed

theorem shuffle_permutation_unchanged_witness:
  "random_ok (\<lambda>_. 1 / 2) \<and> length [''A'', ''B'', ''C''] < (2::nat) ^ 31
   \<and> shuffleNames (\<lambda>_. 1 / 2) 0 [''A'', ''B'', ''C''] = [Some ''B'', Some ''C'', Some ''A'']
   \<and> sh_array (shuffleNames_vars (\<lambda>_. 1 / 2) 0 [''A'', ''B'', ''C'']) = [''A'', ''B'', ''C'']
   \<and> mset (shuffleNames (\<lambda>_. 1 / 2) 0 [''A'', ''B'', ''C'']) = mset (map Some [''A'', ''B'', ''C''])
   \<and> mset (shuffleLuckyMoneys (\<lambda>_. 1 / 2) 0 [''A'', ''B'', ''C'']) = mset (map Some [''A'', ''B'', ''C''])"
proof -
  have r: "random_ok (\<lambda>_. 1 / 2)" by (simp add: random_ok_def)
  have l: "length [''A'', ''B'', ''C''] < (2::nat) ^ 31" by simp
  have e: "shuffleNames (\<lambda>_. 1 / 2) 0 [''A'', ''B'', ''C''] = [Some ''B'', Some ''C'', Some ''A'']"
    by code_simp
  show ?thesis
    using shuffle_permutation_unchanged[of "\<lambda>_. 1 / 2" 0 "[''A'', ''B'', ''C'']"] r l e
    by simp
qed

section \<open>Properties of the reel sequence\<close>

lemma duplicate_until_stop:
  "\<not> (xs \<noteq> [] \<and> int (length xs) < m) \<Longrightarrow> duplicate_until m xs = xs"
  by (subst duplicate_until.simps) (simp only: if_False simp_thms)

lemma duplicate_until_step:
  "xs \<noteq> [] \<and> int (length xs) < m \<Longrightarrow> duplicate_until m xs = duplicate_until m (xs @ xs)"
  by (subst duplicate_until.simps) (simp only: if_True simp_thms)

lemma duplicate_until_Nil: "duplicate_until m [] = []"
  by (simp add: duplicate_until_stop)

lemma duplicate_until_set: "set (duplicate_until m xs) = set xs"
proof (induction m xs rule: duplicate_until.induct)
  case (1 m xs)
  show ?case
  proof (cases "xs \<noteq> [] \<and> int (length xs) < m")
    case True
    then show ?thesis using 1 by (simp add: duplicate_until_step)
  next
    case False
    then show ?thesis by (simp add: duplicate_until_stop)
  qed
qed

lemma duplicate_until_length: "xs \<noteq> [] \<Longrightarrow> m \<le> int (length (duplicate_until m xs))"
proof (induction m xs rule: duplicate_until.induct)
  case (1 m xs)
  show ?case
  proof (cases "xs \<noteq> [] \<and> int (length xs) < m")
    case True
    then show ?thesis using 1 by (simp add: duplicate_until_step)
  next
    case False
    then show ?thesis using "1.prems" by (simp add: duplicate_until_stop)
  qed
qed

lemma slice0_nonneg: "0 \<le> e \<Longrightarrow> slice0 xs e = take (nat e) xs"
  by (simp add: slice0_def Let_def min_def)

lemma slice0_set: "set (slice0 xs e) \<subseteq> set xs"
  by (simp add: slice0_def Let_def set_take_subset)

lemma reel_sequence_Nil: "reel_sequence m prev [] = []"
  by (simp add: reel_sequence_def duplicate_until_Nil slice0_def)

lemma reel_sequence_set: "set (reel_sequence m prev xs) \<subseteq> set xs"
  using slice0_set[of "duplicate_until m xs"] by (simp add: reel_sequence_def duplicate_until_set)

lemma reel_sequence_length:
  assumes "xs \<noteq> []" "1 \<le> m"
  shows "length (reel_sequence m prev xs) = nat (m - number_of_bool prev)"
proof -
  have e: "0 \<le> m - number_of_bool prev" using assms(2) by (simp add: number_of_bool_def)
  have "m \<le> int (length (duplicate_until m xs))" using assms(1) by (rule duplicate_until_length)
  then have "nat (m - number_of_bool prev) \<le> length (duplicate_until m xs)"
    by (cases prev) (auto simp: number_of_bool_def)
  then show ?thesis by (simp add: reel_sequence_def slice0_nonneg[OF e])
qed

lemma shuffle_result_set:
  assumes "random_ok rnd" "length array < 2 ^ 31"
  shows "set (sh_result (shuffle_loop rnd p (shuffle_init array))) = Some ` set array"
proof -
  have "set_mset (mset (sh_result (shuffle_loop rnd p (shuffle_init array)))) = set_mset (mset (map Some array))"
    using assms by (simp only: shuffle_run_mset)
  then show ?thesis by simp
qed

lemma shuffle_result_Nil_iff:
  "sh_result (shuffle_loop rnd p (shuffle_init array)) = [] \<longleftrightarrow> array = []"
  using shuffle_run_length[of rnd p array] by (metis length_0_conv)

text \<open>
  Claim C4. For a pool that is not empty and \<open>maxReelItems\<close> at least 1, the sequence
  built for the reel from the shuffled pool (doubled until long enough, then cut) has
  exactly \<open>maxReelItems\<close> elements, one fewer when there is a previous winner. When the
  random values obey the contract of \<open>Math.random()\<close>, every element of the sequence is an
  element of the pool. For the empty pool the sequence is empty, whatever the length asked
  for.
\<close>

theorem reel_sequence_length_members:
  "(pool \<noteq> [] \<and> 1 \<le> m \<longrightarrow>
      length (reel_sequence m prev (shuffleNames rnd p pool)) = nat (m - (if prev then 1 else 0))
    \<and> length (reel_sequence m prev (shuffleLuckyMoneys rnd p pool)) = nat (m - (if prev then 1 else 0)))
   \<and> (random_ok rnd \<and> length pool < 2 ^ 31 \<longrightarrow>
      set (reel_sequence m prev (shuffleNames rnd p pool)) \<subseteq> Some ` set pool
    \<and> set (reel_sequence m prev (shuffleLuckyMoneys rnd p pool)) \<subseteq> Some ` set pool)
   \<and> reel_sequence m prev (shuffleNames rnd p ([]::'a list)) = []
   \<and> reel_sequence m prev (shuffleLuckyMoneys rnd p ([]::'a list)) = []"
proof -
  let ?r = "sh_result (shuffle_loop rnd p (shuffle_init pool))"
  have len: "pool \<noteq> [] \<Longrightarrow> 1 \<le> m \<Longrightarrow> length (reel_sequence m prev ?r) = nat (m - (if prev then 1 else 0))"
    using reel_sequence_length[of ?r m prev] by (simp add: shuffle_result_Nil_iff number_of_bool_def)
  have mem: "random_ok rnd \<Longrightarrow> length pool < 2 ^ 31 \<Longrightarrow> set (reel_sequence m prev ?r) \<subseteq> Some ` set pool"
    using reel_sequence_set[of m prev ?r] by (simp add: shuffle_result_set)
  have emp: "reel_sequence m prev (sh_result (shuffle_loop rnd p (shuffle_init ([]::'a list)))) = []"
    using shuffle_result_Nil_iff[of rnd p "[]::'a list"] by (simp add: reel_sequence_Nil)
  show ?thesis
    unfolding shuffleNames_def shuffleNames_vars_def shuffleLuckyMoneys_def
      shuffleLuckyMoneys_vars_def
    using len mem emp by (intro conjI impI) (simp_all only: simp_thms)
qed

theorem reel_sequence_length_members_witness:
  "[''A'', ''B''] \<noteq> [] \<and> (1::int) \<le> 5 \<and> random_ok (\<lambda>_. 0) \<and> length [''A'', ''B''] < (2::nat) ^ 31
   \<and> reel_sequence 5 True (shuffleNames (\<lambda>_. 0) 0 [''A'', ''B'']) = [Some ''A'', Some ''B'', Some ''A'', Some ''B'']
   \<and> length (reel_sequence 5 True (shuffleNames (\<lambda>_. 0) 0 [''A'', ''B''])) = 4
   \<and> set (reel_sequence 5 True (shuffleNames (\<lambda>_. 0) 0 [''A'', ''B''])) \<subseteq> Some ` set [''A'', ''B'']"
proof -
  have r: "random_ok (\<lambda>_. 0)" by (simp add: random_ok_def)
  have e: "reel_sequence 5 True (shuffleNames (\<lambda>_. 0) 0 [''A'', ''B'']) = [Some ''A'', Some ''B'', Some ''A'', Some ''B'']"
    by code_simp
  show ?thesis
    using reel_sequence_length_members[of "[''A'', ''B'']" 5 True "\<lambda>_. 0" 0] r e
    by simp
qed

section \<open>What spinName and spin do\<close>

text \<open>
  The lemmas of this section describe the three ways a call of \<open>spin\<close> can end and, for
  a call that resolves \<open>true\<close>, every field of the state it leaves.
\<close>

lemma callbacks_of_append: "callbacks_of (xs @ ys) = callbacks_of xs @ callbacks_of ys"
  by (induction xs rule: callbacks_of.induct) simp_all

lemma emit_simps:
  "events (emit e w) = events w @ [e]"
  "random_calls (emit e w) = random_calls w"
  "currentPlayerElement (emit e w) = currentPlayerElement w"
  by (simp_all add: emit_def)

lemma selecting_loop_step:
  "i < length names * 6 \<Longrightarrow>
   selecting_loop rnd names i w = selecting_loop rnd names (Suc i)
             (emit (Timeout (20 * (i + 1)))
               (w\<lparr>currentPlayerElement :=
                    Some (Selecting (array_get names \<lfloor>rnd (random_calls w) * real (length names)\<rfloor>)),
                  random_calls := Suc (random_calls w)\<rparr>))"
  by (subst selecting_loop.simps) (simp only: if_True)

lemma selecting_loop_stop:
  "\<not> i < length names * 6 \<Longrightarrow> selecting_loop rnd names i w = w"
  by (subst selecting_loop.simps) (simp only: if_False)

lemma selecting_loop_effect:
  "random_calls (selecting_loop rnd names i w) = random_calls w + (length names * 6 - i)
   \<and> callbacks_of (events (selecting_loop rnd names i w)) = callbacks_of (events w)
   \<and> (\<exists>es. events (selecting_loop rnd names i w) = events w @ es
         \<and> set es \<subseteq> range Timeout)"
proof (induction rnd names i w rule: selecting_loop.induct)
  case (1 rnd names i w)
  show ?case
  proof (cases "i < length names * 6")
    case True
    let ?w = "emit (Timeout (20 * (i + 1)))
               (w\<lparr>currentPlayerElement :=
                    Some (Selecting (array_get names \<lfloor>rnd (random_calls w) * real (length names)\<rfloor>)),
                  random_calls := Suc (random_calls w)\<rparr>)"
    have eq: "selecting_loop rnd names i w = selecting_loop rnd names (Suc i) ?w"
      using True by (rule selecting_loop_step)
    from "1.IH"[OF True] obtain es where
      a: "random_calls (selecting_loop rnd names (Suc i) ?w) = random_calls ?w + (length names * 6 - Suc i)"
      and b: "callbacks_of (events (selecting_loop rnd names (Suc i) ?w)) = callbacks_of (events ?w)"
      and c: "events (selecting_loop rnd names (Suc i) ?w) = events ?w @ es" "set es \<subseteq> range Timeout"
      by blast
    have "events (selecting_loop rnd names i w) = events w @ (Timeout (20 * (i + 1)) # es)"
      unfolding eq c by (simp add: emit_simps)
    moreover have "set (Timeout (20 * (i + 1)) # es) \<subseteq> range Timeout" using c(2) by simp
    ultimately have ex: "\<exists>es. events (selecting_loop rnd names i w) = events w @ es \<and> set es \<subseteq> range Timeout"
      by blast
    show ?thesis
      using ex True unfolding eq a b by (simp add: emit_simps callbacks_of_append)
  next
    case False
    then show ?thesis by (simp add: selecting_loop_stop)
  qed
qed

lemma shuffle_loop_k:
  "sh_k (shuffle_loop rnd p v) = sh_k v + min (length (sh_array v) - sh_k v) (sh_n v)"
proof (induction rnd p v rule: shuffle_loop.induct)
  case (1 rnd p v)
  show ?case
  proof (cases "sh_k v < length (sh_array v) \<and> 0 < sh_n v")
    case True
    have eq: "shuffle_loop rnd p v = shuffle_loop rnd (Suc p) (shuffle_body (rnd p) v)"
      using True by (rule shuffle_loop_step)
    show ?thesis
      unfolding eq "1.IH"[OF True] using True by (auto simp: shuffle_body_def Let_def)
  next
    case False
    have eq: "shuffle_loop rnd p v = v"
      using False by (rule shuffle_loop_stop)
    show ?thesis using False by (auto simp: eq)
  qed
qed

lemma shuffle_run_k: "sh_k (shuffle_loop rnd p (shuffle_init array)) = length array"
  by (simp add: shuffle_loop_k) (simp add: shuffle_init_def)

lemma spinName_empty:
  "nameList s = [] \<Longrightarrow> spinName rnd s w = (Inr False, s, emit ConsoleError w)"
  by (simp add: spinName_def)

lemma spinName_no_element:
  assumes "nameList s \<noteq> []" "currentPlayerElement w = None"
  shows "spinName rnd s w =
    (Inl TypeError,
     s\<lparr>currentPlayer := js_last (reel_sequence (maxReelItems s) (havePreviousWinner s)
          (shuffleNames rnd (random_calls w) (nameList s)))\<rparr>,
     w\<lparr>random_calls := random_calls w + length (nameList s)\<rparr>)"
  using assms by (simp add: spinName_def Let_def shuffleNames_def shuffleNames_vars_def shuffle_run_k)

lemma spinName_shown:
  assumes "nameList s \<noteq> []" "currentPlayerElement w = Some t"
  shows "\<exists>w2. spinName rnd s w =
    (Inr True,
     s\<lparr>currentPlayer := js_last (reel_sequence (maxReelItems s) (havePreviousWinner s)
          (shuffleNames rnd (random_calls w) (nameList s)))\<rparr>, w2)
    \<and> random_calls w2 = random_calls w + 7 * length (nameList s)
    \<and> callbacks_of (events w2) = callbacks_of (events w)
    \<and> (\<exists>es. events w2 = events w @ es \<and> set es \<subseteq> range Timeout)"
proof -
  let ?w1 = "w\<lparr>random_calls := random_calls w + length (nameList s)\<rparr>"
  let ?cp = "js_last (reel_sequence (maxReelItems s) (havePreviousWinner s)
          (shuffleNames rnd (random_calls w) (nameList s)))"
  let ?w2 = "(selecting_loop rnd (nameList s) 0 ?w1)\<lparr>currentPlayerElement := Some (Star ?cp)\<rparr>"
  have eq: "spinName rnd s w = (Inr True, s\<lparr>currentPlayer := ?cp\<rparr>, ?w2)"
    using assms by (simp add: spinName_def Let_def shuffleNames_def shuffleNames_vars_def shuffle_run_k)
  from selecting_loop_effect[of rnd "nameList s" 0 ?w1]
  have "random_calls ?w2 = random_calls w + 7 * length (nameList s)"
    and "callbacks_of (events ?w2) = callbacks_of (events w)"
    and "\<exists>es. events ?w2 = events w @ es \<and> set es \<subseteq> range Timeout"
    by simp_all
  with eq show ?thesis by blast
qed


lemma spinName_resolved:
  assumes "nameList s = [] \<or> currentPlayerElement w \<noteq> None"
  shows "\<exists>b w2. spinName rnd s w =
      (Inr b,
       s\<lparr>currentPlayer := (if nameList s = [] then currentPlayer s
          else js_last (reel_sequence (maxReelItems s) (havePreviousWinner s)
                 (shuffleNames rnd (random_calls w) (nameList s))))\<rparr>, w2)
    \<and> random_calls w2 = random_calls w + 7 * length (nameList s)
    \<and> callbacks_of (events w2) = callbacks_of (events w)
    \<and> (\<exists>es. events w2 = events w @ es \<and> set es \<subseteq> insert ConsoleError (range Timeout))"
proof (cases "nameList s = []")
  case True
  have "events (emit ConsoleError w) = events w @ [ConsoleError]
      \<and> set [ConsoleError] \<subseteq> insert ConsoleError (range Timeout)"
    by (simp add: emit_simps)
  then have "\<exists>es. events (emit ConsoleError w) = events w @ es
      \<and> set es \<subseteq> insert ConsoleError (range Timeout)" by blast
  then show ?thesis
    using True
    by (intro exI[of _ False] exI[of _ "emit ConsoleError w"])
       (simp add: spinName_empty emit_simps callbacks_of_append)
next
  case False
  with assms obtain t where t: "currentPlayerElement w = Some t" by auto
  from spinName_shown[OF False t, of rnd] obtain w2 where
    a: "spinName rnd s w =
      (Inr True, s\<lparr>currentPlayer := js_last (reel_sequence (maxReelItems s) (havePreviousWinner s)
          (shuffleNames rnd (random_calls w) (nameList s)))\<rparr>, w2)"
    and b: "random_calls w2 = random_calls w + 7 * length (nameList s)"
    and c: "callbacks_of (events w2) = callbacks_of (events w)"
    and d: "\<exists>es. events w2 = events w @ es \<and> set es \<subseteq> range Timeout"
    by blast
  from d have d': "\<exists>es. events w2 = events w @ es \<and> set es \<subseteq> insert ConsoleError (range Timeout)"
    by blast
  show ?thesis
    using False a b c d' by (intro exI[of _ True] exI[of _ w2]) simp
qed

lemma spin_to_await_empty:
  "nameList s = [] \<and> luckyMoneyList s = [] \<Longrightarrow>
   spin_to_await rnd s w = (Some (Inr False), s, emit ConsoleError w)"
  by (simp add: spin_to_await_def)

lemma spin_to_await_no_element:
  assumes "nameList s \<noteq> []" "currentPlayerElement w = None"
  shows "fst (spin_to_await rnd s w) = Some (Inl TypeError)"
proof -
  let ?w1 = "if onSpinStart s then emit (Callback OnSpinStart) w else w"
  have "currentPlayerElement ?w1 = None" using assms(2) by (simp add: emit_simps)
  from spinName_no_element[OF assms(1) this, of rnd]
  show ?thesis using assms(1) by (simp add: spin_to_await_def Let_def)
qed

lemma spin_to_await_no_reel:
  assumes ne: "\<not> (nameList s = [] \<and> luckyMoneyList s = [])"
    and el: "nameList s = [] \<or> currentPlayerElement w \<noteq> None"
    and no: "reelContainer s = None \<or> reelAnimation s = None"
  shows "\<exists>w2. spin_to_await rnd s w
     = (Some (Inr False),
        s\<lparr>currentPlayer := (if nameList s = [] then currentPlayer s
          else js_last (reel_sequence (maxReelItems s) (havePreviousWinner s)
                 (shuffleNames rnd (random_calls w) (nameList s))))\<rparr>, w2)"
proof -
  let ?w1 = "if onSpinStart s then emit (Callback OnSpinStart) w else w"
  have el1: "nameList s = [] \<or> currentPlayerElement ?w1 \<noteq> None"
    using el by (simp add: emit_simps)
  have rc1: "random_calls ?w1 = random_calls w" by (simp add: emit_simps)
  from spinName_resolved[OF el1, of rnd] obtain b w2 where
    a: "spinName rnd s ?w1 =
      (Inr b, s\<lparr>currentPlayer := (if nameList s = [] then currentPlayer s
          else js_last (reel_sequence (maxReelItems s) (havePreviousWinner s)
                 (shuffleNames rnd (random_calls w) (nameList s))))\<rparr>, w2)"
    unfolding rc1 by blast
  show ?thesis
    using ne no unfolding spin_to_await_def Let_def a
    by (auto split: option.splits)
qed

lemma spin_to_await_suspended:
  assumes ne: "\<not> (nameList s = [] \<and> luckyMoneyList s = [])"
    and el: "nameList s = [] \<or> currentPlayerElement w \<noteq> None"
    and rc: "reelContainer s = Some children" and ra: "reelAnimation s = Some a"
  shows "\<exists>w1. spin_to_await rnd s w =
      (None,
       (let cp = (if nameList s = [] then currentPlayer s
              else js_last (reel_sequence (maxReelItems s) (havePreviousWinner s)
                     (shuffleNames rnd (random_calls w) (nameList s))));
            prizes = reel_sequence (maxReelItems s) (havePreviousWinner s)
                     (shuffleLuckyMoneys rnd (random_calls w + 7 * length (nameList s)) (luckyMoneyList s));
            s3 = s\<lparr>currentPlayer := cp, reelContainer := Some (children @ map to_str prizes)\<rparr>;
            s4 = (if shouldRemoveWinner s then remove_winner (js_last prizes) s3 else s3)
        in s4\<lparr>reelAnimation := Some Running\<rparr>), w1)
    \<and> callbacks_of (events w1)
        = callbacks_of (events w) @ (if onSpinStart s then [OnSpinStart] else [])
    \<and> (\<exists>es. events w1 = events w @ es @ [AnimationPlay]
          \<and> AnimationFinish \<notin> set es \<and> Callback OnSpinEnd \<notin> set es)"
proof -
  let ?w1 = "if onSpinStart s then emit (Callback OnSpinStart) w else w"
  let ?cp = "if nameList s = [] then currentPlayer s
          else js_last (reel_sequence (maxReelItems s) (havePreviousWinner s)
                 (shuffleNames rnd (random_calls w) (nameList s)))"
  have el1: "nameList s = [] \<or> currentPlayerElement ?w1 \<noteq> None"
    using el by (simp add: emit_simps)
  have rc1: "random_calls ?w1 = random_calls w" by (simp add: emit_simps)
  from spinName_resolved[OF el1, of rnd] obtain b w2 es where
    a: "spinName rnd s ?w1 = (Inr b, s\<lparr>currentPlayer := ?cp\<rparr>, w2)"
    and p: "random_calls w2 = random_calls w + 7 * length (nameList s)"
    and c: "callbacks_of (events w2) = callbacks_of (events ?w1)"
    and e: "events w2 = events ?w1 @ es" "set es \<subseteq> insert ConsoleError (range Timeout)"
    unfolding rc1 by blast
  let ?w6 = "emit AnimationPlay (emit ConsoleLog (emit ConsoleLog (emit ConsoleLog (emit ConsoleLog
      (w2\<lparr>random_calls := random_calls w2
          + sh_k (shuffleLuckyMoneys_vars rnd (random_calls w2) (luckyMoneyList s))\<rparr>)))))"
  have cb: "callbacks_of (events ?w6)
      = callbacks_of (events w) @ (if onSpinStart s then [OnSpinStart] else [])"
    by (simp add: emit_simps callbacks_of_append c)
  let ?es = "(if onSpinStart s then [Callback OnSpinStart] else []) @ es
      @ [ConsoleLog, ConsoleLog, ConsoleLog, ConsoleLog]"
  have ev: "events ?w6 = events w @ ?es @ [AnimationPlay]"
    by (simp add: emit_simps e(1))
  have nf: "AnimationFinish \<notin> set ?es \<and> Callback OnSpinEnd \<notin> set ?es"
    using e(2) by auto
  have ex: "\<exists>es. events ?w6 = events w @ es @ [AnimationPlay]
          \<and> AnimationFinish \<notin> set es \<and> Callback OnSpinEnd \<notin> set es"
    using ev nf by blast
  have eq: "spin_to_await rnd s w =
      (None,
       (let cp = ?cp;
            prizes = reel_sequence (maxReelItems s) (havePreviousWinner s)
                     (shuffleLuckyMoneys rnd (random_calls w + 7 * length (nameList s)) (luckyMoneyList s));
            s3 = s\<lparr>currentPlayer := cp, reelContainer := Some (children @ map to_str prizes)\<rparr>;
            s4 = (if shouldRemoveWinner s then remove_winner (js_last prizes) s3 else s3)
        in s4\<lparr>reelAnimation := Some Running\<rparr>), ?w6)"
    using ne rc ra unfolding spin_to_await_def Let_def a
    by (simp add: p shuffleLuckyMoneys_def)
  show ?thesis using eq cb ex by blast
qed


lemma spin_true_conditions:
  assumes "fst (spin rnd s w) = Inr True"
  shows "\<not> (nameList s = [] \<and> luckyMoneyList s = [])"
    and "nameList s = [] \<or> currentPlayerElement w \<noteq> None"
    and "reelContainer s \<noteq> None" and "reelAnimation s \<noteq> None"
proof -
  show ne: "\<not> (nameList s = [] \<and> luckyMoneyList s = [])"
    using assms by (auto simp: spin_def spin_to_await_empty)
  show el: "nameList s = [] \<or> currentPlayerElement w \<noteq> None"
  proof (rule ccontr)
    assume "\<not> (nameList s = [] \<or> currentPlayerElement w \<noteq> None)"
    then have "fst (spin_to_await rnd s w) = Some (Inl TypeError)"
      by (simp add: spin_to_await_no_element)
    then have "fst (spin rnd s w) = Inl TypeError"
      by (cases "spin_to_await rnd s w") (simp add: spin_def)
    with assms show False by simp
  qed
  have "\<not> (reelContainer s = None \<or> reelAnimation s = None)"
  proof
    assume "reelContainer s = None \<or> reelAnimation s = None"
    from spin_to_await_no_reel[OF ne el this, of rnd]
    have "fst (spin rnd s w) = Inr False" by (auto simp: spin_def)
    with assms show False by simp
  qed
  then show "reelContainer s \<noteq> None" and "reelAnimation s \<noteq> None" by simp_all
qed

lemma spin_true_fields:
  fixes rnd s w
  defines "cp \<equiv> (if nameList s = [] then currentPlayer s
              else js_last (reel_sequence (maxReelItems s) (havePreviousWinner s)
                     (shuffleNames rnd (random_calls w) (nameList s))))"
    and "prizes \<equiv> reel_sequence (maxReelItems s) (havePreviousWinner s)
           (shuffleLuckyMoneys rnd (random_calls w + 7 * length (nameList s)) (luckyMoneyList s))"
  assumes t: "spin rnd s w = (Inr True, s', w')"
  shows "currentPlayer s' = cp"
    and "nameList s' = (if shouldRemoveWinner s
           then splice1 (findIndex (\<lambda>name. Some name = cp) (nameList s)) (nameList s)
           else nameList s)"
    and "luckyMoneyList s' = (if shouldRemoveWinner s
           then splice1 (findIndex (\<lambda>luckyMoney. Some luckyMoney = js_last prizes) (luckyMoneyList s))
                  (luckyMoneyList s)
           else luckyMoneyList s)"
    and "drawHistory s' = (if shouldRemoveWinner s
           then drawHistory s @ [to_str cp @ '' - '' @ to_str (js_last prizes)]
                @ (if nameList s' = [] \<and> luckyMoneyList s' = [] then [''-------END-------''] else [])
           else drawHistory s)"
    and "havePreviousWinner s' = True"
    and "\<exists>children. reelContainer s = Some children
           \<and> reelContainer s' = Some (trim_reel (children @ map to_str prizes))"
    and "callbacks_of (events w')
           = callbacks_of (events w) @ (if onSpinStart s then [OnSpinStart] else [])
             @ (if onSpinEnd s then [OnSpinEnd] else [])"
    and "maxReelItems s' = maxReelItems s \<and> shouldRemoveWinner s' = shouldRemoveWinner s
         \<and> onSpinStart s' = onSpinStart s \<and> onSpinEnd s' = onSpinEnd s
         \<and> onNameListChanged s' = onNameListChanged s \<and> reelAnimation s' = Some Finished"
proof -
  have f: "fst (spin rnd s w) = Inr True" using t by simp
  note c = spin_true_conditions[OF f]
  from c(3) c(4) obtain children a where
    rc: "reelContainer s = Some children" and ra: "reelAnimation s = Some a" by auto
  from spin_to_await_suspended[OF c(1) c(2) rc ra, of rnd] obtain w1 where
    eq: "spin_to_await rnd s w =
      (None,
       (let s3 = s\<lparr>currentPlayer := cp, reelContainer := Some (children @ map to_str prizes)\<rparr>;
            s4 = (if shouldRemoveWinner s then remove_winner (js_last prizes) s3 else s3)
        in s4\<lparr>reelAnimation := Some Running\<rparr>), w1)"
    and cb: "callbacks_of (events w1)
        = callbacks_of (events w) @ (if onSpinStart s then [OnSpinStart] else [])"
    unfolding cp_def prizes_def Let_def by blast
  have s': "s' = (let s3 = s\<lparr>currentPlayer := cp, reelContainer := Some (children @ map to_str prizes)\<rparr>;
            s4 = (if shouldRemoveWinner s then remove_winner (js_last prizes) s3 else s3)
        in s4\<lparr>reelAnimation := Some Finished,
              reelContainer := Some (trim_reel (children @ map to_str prizes)),
              havePreviousWinner := True\<rparr>)"
    using t unfolding spin_def eq
    by (auto simp: spin_after_await_def Let_def remove_winner_def)
  have w': "events w' = events w1 @ AnimationFinish # (if onSpinEnd s then [Callback OnSpinEnd] else [])"
    using t unfolding spin_def eq
    by (auto simp: spin_after_await_def Let_def remove_winner_def emit_simps)
  show "currentPlayer s' = cp"
    by (simp add: s' Let_def remove_winner_def)
  show n: "nameList s' = (if shouldRemoveWinner s
           then splice1 (findIndex (\<lambda>name. Some name = cp) (nameList s)) (nameList s)
           else nameList s)"
    by (simp add: s' Let_def remove_winner_def)
  show l: "luckyMoneyList s' = (if shouldRemoveWinner s
           then splice1 (findIndex (\<lambda>luckyMoney. Some luckyMoney = js_last prizes) (luckyMoneyList s))
                  (luckyMoneyList s)
           else luckyMoneyList s)"
    by (simp add: s' Let_def remove_winner_def)
  show "drawHistory s' = (if shouldRemoveWinner s
           then drawHistory s @ [to_str cp @ '' - '' @ to_str (js_last prizes)]
                @ (if nameList s' = [] \<and> luckyMoneyList s' = [] then [''-------END-------''] else [])
           else drawHistory s)"
    unfolding n l by (simp add: s' Let_def remove_winner_def)
  show "havePreviousWinner s' = True"
    by (simp add: s' Let_def remove_winner_def)
  show "\<exists>children. reelContainer s = Some children
           \<and> reelContainer s' = Some (trim_reel (children @ map to_str prizes))"
    using rc by (simp add: s' Let_def remove_winner_def)
  show "callbacks_of (events w')
           = callbacks_of (events w) @ (if onSpinStart s then [OnSpinStart] else [])
             @ (if onSpinEnd s then [OnSpinEnd] else [])"
    by (simp add: w' callbacks_of_append cb)
  show "maxReelItems s' = maxReelItems s \<and> shouldRemoveWinner s' = shouldRemoveWinner s
         \<and> onSpinStart s' = onSpinStart s \<and> onSpinEnd s' = onSpinEnd s
         \<and> onNameListChanged s' = onNameListChanged s \<and> reelAnimation s' = Some Finished"
    by (simp add: s' Let_def remove_winner_def)
qed

lemma spin_resolves_true:
  assumes "\<not> (nameList s = [] \<and> luckyMoneyList s = [])"
    and "nameList s = [] \<or> currentPlayerElement w \<noteq> None"
    and "reelContainer s \<noteq> None" and "reelAnimation s \<noteq> None"
  shows "fst (spin rnd s w) = Inr True"
proof -
  from assms(3,4) obtain children a where
    rc: "reelContainer s = Some children" and ra: "reelAnimation s = Some a" by auto
  from spin_to_await_suspended[OF assms(1,2) rc ra, of rnd]
  show ?thesis by (auto simp: spin_def spin_after_await_def Let_def)
qed

section \<open>Rejection of a draw, and the setters\<close>

text \<open>
  Claim C3. When the name list and the lucky money list are both empty, \<open>spin\<close> resolves
  \<open>false\<close>. It leaves every field of the Slot as it was, the draw history among them,
  calls no callback, and only writes an error to the console.
\<close>

theorem spin_empty_lists_rejected:
  assumes "nameList s = []" and "luckyMoneyList s = []"
  shows "spin rnd s w = (Inr False, s, w\<lparr>events := events w @ [ConsoleError]\<rparr>)
       \<and> drawHistory (fst (snd (spin rnd s w))) = drawHistory s
       \<and> callbacks_of (events (snd (snd (spin rnd s w)))) = callbacks_of (events w)"
  using assms
  by (simp add: spin_def spin_to_await_empty emit_def callbacks_of_append)

theorem spin_empty_lists_rejected_witness:
  "nameList (new_Slot page_config) = [] \<and> luckyMoneyList (new_Slot page_config) = []
   \<and> spin always_zero (new_Slot page_config) page_world
      = (Inr False, new_Slot page_config, page_world\<lparr>events := [ConsoleError]\<rparr>)
   \<and> callbacks_of (events (snd (snd (spin always_zero (new_Slot page_config) page_world)))) = []"
proof -
  have a: "nameList (new_Slot page_config) = []" "luckyMoneyList (new_Slot page_config) = []"
    by (simp_all add: new_Slot_def)
  from spin_empty_lists_rejected[OF a, of always_zero page_world]
  show ?thesis using a by (simp add: page_world_def)
qed


text \<open>
  Claim C9. Assigning to \<open>names\<close> stores the given list as it is, empties the reel,
  sets \<open>havePreviousWinner\<close> to false and calls \<open>onNameListChanged\<close> once (the callback
  is optional: where the caller gave none, nothing is called). This holds also when a
  completed \<open>spin\<close> had set \<open>havePreviousWinner\<close> to true. Assigning to
  \<open>luckyMoneys\<close> stores the given list and changes nothing else: \<open>havePreviousWinner\<close>
  and the name list stay, and no event occurs.
\<close>

theorem setters_effect:
  "set_names names s w =
     (s\<lparr>nameList := names, reelContainer := map_option (\<lambda>_. []) (reelContainer s),
        havePreviousWinner := False\<rparr>,
      w\<lparr>events := events w @ (if onNameListChanged s then [Callback OnNameListChanged] else [])\<rparr>)
   \<and> (spin rnd s0 w0 = (Inr True, s, w) \<longrightarrow>
        havePreviousWinner s \<and> \<not> havePreviousWinner (fst (set_names names s w)))
   \<and> set_luckyMoneys luckyMoneys s w = (s\<lparr>luckyMoneyList := luckyMoneys\<rparr>, w)
   \<and> havePreviousWinner (fst (set_luckyMoneys luckyMoneys s w)) = havePreviousWinner s
   \<and> nameList (fst (set_luckyMoneys luckyMoneys s w)) = nameList s"
proof -
  have a: "set_names names s w =
     (s\<lparr>nameList := names, reelContainer := map_option (\<lambda>_. []) (reelContainer s),
        havePreviousWinner := False\<rparr>,
      w\<lparr>events := events w @ (if onNameListChanged s then [Callback OnNameListChanged] else [])\<rparr>)"
    by (simp add: set_names_def Let_def emit_def)
  have b: "spin rnd s0 w0 = (Inr True, s, w) \<longrightarrow>
        havePreviousWinner s \<and> \<not> havePreviousWinner (fst (set_names names s w))"
    using spin_true_fields(5)[of rnd s0 w0 s w] by (simp add: a)
  have c: "set_luckyMoneys luckyMoneys s w = (s\<lparr>luckyMoneyList := luckyMoneys\<rparr>, w)"
    by (simp add: set_luckyMoneys_def)
  show ?thesis using a b c by simp
qed

theorem setters_effect_witness:
  "spin always_zero (slot_with page_config [''A'', ''B''] [''X'']) page_world
     = (Inr True, fst (snd (spin always_zero (slot_with page_config [''A'', ''B''] [''X'']) page_world)),
        snd (snd (spin always_zero (slot_with page_config [''A'', ''B''] [''X'']) page_world)))
   \<and> havePreviousWinner (fst (snd (spin always_zero (slot_with page_config [''A'', ''B''] [''X'']) page_world)))
   \<and> \<not> havePreviousWinner (fst (set_names [''C'', ''C'', ''B'']
         (fst (snd (spin always_zero (slot_with page_config [''A'', ''B''] [''X'']) page_world)))
         (snd (snd (spin always_zero (slot_with page_config [''A'', ''B''] [''X'']) page_world)))))
   \<and> nameList (fst (set_names [''C'', ''C'', ''B'']
         (fst (snd (spin always_zero (slot_with page_config [''A'', ''B''] [''X'']) page_world)))
         (snd (snd (spin always_zero (slot_with page_config [''A'', ''B''] [''X'']) page_world)))))
      = [''C'', ''C'', ''B'']"
proof -
  have t: "fst (spin always_zero (slot_with page_config [''A'', ''B''] [''X'']) page_world) = Inr True"
    by code_simp
  have e: "spin always_zero (slot_with page_config [''A'', ''B''] [''X'']) page_world
     = (Inr True, fst (snd (spin always_zero (slot_with page_config [''A'', ''B''] [''X'']) page_world)),
        snd (snd (spin always_zero (slot_with page_config [''A'', ''B''] [''X'']) page_world)))"
    using t by (metis prod.collapse)
  from setters_effect[of "[''C'', ''C'', ''B'']"
      "fst (snd (spin always_zero (slot_with page_config [''A'', ''B''] [''X'']) page_world))"
      "snd (snd (spin always_zero (slot_with page_config [''A'', ''B''] [''X'']) page_world))"
      always_zero "slot_with page_config [''A'', ''B''] [''X'']" page_world]
  show ?thesis using e by simp
qed

text \<open>
  The reel after the trim, and the run of \<open>spin\<close> from its suspension.
\<close>

lemma trim_reel_last: "ys \<noteq> [] \<Longrightarrow> trim_reel ys = [last ys]"
proof -
  assume ne: "ys \<noteq> []"
  then have e: "0 \<le> int (length ys) - 1" by (cases ys) simp_all
  have "length (slice0 ys (int (length ys) - 1)) = length ys - 1"
    unfolding slice0_nonneg[OF e] using ne by (cases ys) (simp_all add: nat_diff_distrib)
  then have "trim_reel ys = drop (length ys - 1) ys" by (simp add: trim_reel_def)
  also have "\<dots> = drop (length (butlast ys)) (butlast ys @ [last ys])"
    using ne by simp
  also have "\<dots> = [last ys]" by (simp only: drop_append drop_all order_refl) simp
  finally show ?thesis .
qed

lemma js_last_nonempty: "xs \<noteq> [] \<Longrightarrow> js_last xs = last xs"
  by (simp add: js_last_def)

lemma spin_suspended_resolves:
  assumes "spin_to_await rnd s w = (None, s1, w1)"
  shows "spin rnd s w = spin_after_await s1 w1" and "fst (spin rnd s w) = Inr True"
  using assms by (simp_all add: spin_def spin_after_await_def Let_def)

section \<open>The order of effects in spin\<close>

text \<open>
  Claim C1, at the page's own configuration. The page script supplies four phase
  callbacks, \<open>onSpinNameStart\<close> and \<open>onSpinNameEnd\<close> among them, and \<open>spin\<close> resolves
  \<open>true\<close>; the callbacks that the Slot calls are \<open>onSpinStart\<close> and \<open>onSpinEnd\<close>
  only, in this order.
\<close>

theorem callbacks_of_page_spin:
  "cfg_onSpinNameStart page_config \<and> cfg_onSpinNameEnd page_config
   \<and> fst (spin always_zero (slot_with page_config [''A''] [''X'']) page_world) = Inr True
   \<and> callbacks_of (events (snd (snd (spin always_zero (slot_with page_config [''A''] [''X'']) page_world))))
      = [OnSpinStart, OnSpinEnd]"
  by code_simp

text \<open>
  Claim C2 as stated fails. With one name and one prize, at the point where \<open>spin\<close> is
  suspended on the animation and the finish event has not occurred, the winner is already
  removed from both lists and the draw history already holds the entry and the end marker.
\<close>

theorem mutation_before_finish_counterexample:
  "nameList (slot_with page_config [''A''] [''X'']) = [''A'']
   \<and> fst (spin_to_await always_zero (slot_with page_config [''A''] [''X'']) page_world) = None
   \<and> AnimationFinish \<notin> set (events (snd (snd (spin_to_await always_zero (slot_with page_config [''A''] [''X'']) page_world))))
   \<and> nameList (fst (snd (spin_to_await always_zero (slot_with page_config [''A''] [''X'']) page_world))) = []
   \<and> luckyMoneyList (fst (snd (spin_to_await always_zero (slot_with page_config [''A''] [''X'']) page_world))) = []
   \<and> drawHistory (fst (snd (spin_to_await always_zero (slot_with page_config [''A''] [''X'']) page_world)))
      = [''A - X'', ''-------END-------'']"
  by code_simp

text \<open>
  Claim C2, amended. In every run of \<open>spin\<close> that reaches the wait for the animation
  (and so resolves \<open>true\<close> once the finish event arrives), the removal from both lists
  and the append to the draw history (when removal is enabled) are done before the finish
  event is observed: the state in which \<open>spin\<close> is suspended at the wait already holds
  them, no finish event and no \<open>onSpinEnd\<close> has occurred by then, and the run after the
  finish event leaves both lists and the history as they are and calls \<open>onSpinEnd\<close>
  last.
\<close>

theorem mutation_before_animation:
  assumes a: "spin_to_await rnd s w = (None, s1, w1)"
  shows "fst (spin rnd s w) = Inr True
       \<and> nameList (fst (snd (spin rnd s w))) = nameList s1
       \<and> luckyMoneyList (fst (snd (spin rnd s w))) = luckyMoneyList s1
       \<and> drawHistory (fst (snd (spin rnd s w))) = drawHistory s1
       \<and> events (snd (snd (spin rnd s w)))
           = events w1 @ AnimationFinish # (if onSpinEnd s then [Callback OnSpinEnd] else [])
       \<and> (\<exists>es. events w1 = events w @ es @ [AnimationPlay]
             \<and> AnimationFinish \<notin> set es \<and> Callback OnSpinEnd \<notin> set es)
       \<and> (shouldRemoveWinner s \<longrightarrow>
            (\<exists>prize.
               nameList s1 = splice1 (findIndex (\<lambda>name. Some name = currentPlayer s1) (nameList s))
                               (nameList s)
             \<and> luckyMoneyList s1 = splice1 (findIndex (\<lambda>luckyMoney. Some luckyMoney = prize)
                               (luckyMoneyList s)) (luckyMoneyList s)
             \<and> drawHistory s1 = drawHistory s @ [to_str (currentPlayer s1) @ '' - '' @ to_str prize]
                 @ (if nameList s1 = [] \<and> luckyMoneyList s1 = [] then [''-------END-------''] else [])))"
proof -
  note r = spin_suspended_resolves[OF a]
  note c = spin_true_conditions[OF r(2)]
  from c(3) c(4) obtain children an where
    rc: "reelContainer s = Some children" and ra: "reelAnimation s = Some an" by auto
  define cp where "cp = (if nameList s = [] then currentPlayer s
              else js_last (reel_sequence (maxReelItems s) (havePreviousWinner s)
                     (shuffleNames rnd (random_calls w) (nameList s))))"
  define prizes where "prizes = reel_sequence (maxReelItems s) (havePreviousWinner s)
           (shuffleLuckyMoneys rnd (random_calls w + 7 * length (nameList s)) (luckyMoneyList s))"
  from spin_to_await_suspended[OF c(1) c(2) rc ra, of rnd] obtain w1' where
    eq: "spin_to_await rnd s w =
      (None,
       (let s3 = s\<lparr>currentPlayer := cp, reelContainer := Some (children @ map to_str prizes)\<rparr>;
            s4 = (if shouldRemoveWinner s then remove_winner (js_last prizes) s3 else s3)
        in s4\<lparr>reelAnimation := Some Running\<rparr>), w1')"
    and ev: "\<exists>es. events w1' = events w @ es @ [AnimationPlay]
          \<and> AnimationFinish \<notin> set es \<and> Callback OnSpinEnd \<notin> set es"
    unfolding cp_def prizes_def Let_def by blast
  have s1: "s1 = (let s3 = s\<lparr>currentPlayer := cp, reelContainer := Some (children @ map to_str prizes)\<rparr>;
            s4 = (if shouldRemoveWinner s then remove_winner (js_last prizes) s3 else s3)
        in s4\<lparr>reelAnimation := Some Running\<rparr>)" and w1: "w1' = w1"
    using a eq by simp_all
  have e1: "onSpinEnd s1 = onSpinEnd s"
    by (simp add: s1 Let_def remove_winner_def)
  have after: "nameList (fst (snd (spin_after_await s1 w1))) = nameList s1
     \<and> luckyMoneyList (fst (snd (spin_after_await s1 w1))) = luckyMoneyList s1
     \<and> drawHistory (fst (snd (spin_after_await s1 w1))) = drawHistory s1
     \<and> events (snd (snd (spin_after_await s1 w1)))
           = events w1 @ AnimationFinish # (if onSpinEnd s then [Callback OnSpinEnd] else [])"
    by (simp add: spin_after_await_def Let_def emit_def e1)
  have rem: "shouldRemoveWinner s \<Longrightarrow>
      nameList s1 = splice1 (findIndex (\<lambda>name. Some name = currentPlayer s1) (nameList s)) (nameList s)
    \<and> luckyMoneyList s1 = splice1 (findIndex (\<lambda>luckyMoney. Some luckyMoney = js_last prizes)
                               (luckyMoneyList s)) (luckyMoneyList s)
    \<and> drawHistory s1 = drawHistory s @ [to_str (currentPlayer s1) @ '' - '' @ to_str (js_last prizes)]
                 @ (if nameList s1 = [] \<and> luckyMoneyList s1 = [] then [''-------END-------''] else [])"
    by (simp add: s1 Let_def remove_winner_def)
  show ?thesis
    using r(2) after ev rem unfolding r(1) w1 by blast
qed

theorem mutation_before_animation_witness:
  "spin_to_await always_zero (slot_with page_config [''A'', ''B''] [''X'']) page_world
     = (None, fst (snd (spin_to_await always_zero (slot_with page_config [''A'', ''B''] [''X'']) page_world)),
        snd (snd (spin_to_await always_zero (slot_with page_config [''A'', ''B''] [''X'']) page_world)))
   \<and> nameList (slot_with page_config [''A'', ''B''] [''X'']) = [''A'', ''B'']
   \<and> nameList (fst (snd (spin_to_await always_zero (slot_with page_config [''A'', ''B''] [''X'']) page_world))) = [''A'']
   \<and> nameList (fst (snd (spin always_zero (slot_with page_config [''A'', ''B''] [''X'']) page_world))) = [''A'']
   \<and> drawHistory (fst (snd (spin always_zero (slot_with page_config [''A'', ''B''] [''X'']) page_world))) = [''B - X'']"
proof -
  have n: "fst (spin_to_await always_zero (slot_with page_config [''A'', ''B''] [''X'']) page_world) = None"
    by code_simp
  have e: "spin_to_await always_zero (slot_with page_config [''A'', ''B''] [''X'']) page_world
     = (None, fst (snd (spin_to_await always_zero (slot_with page_config [''A'', ''B''] [''X'']) page_world)),
        snd (snd (spin_to_await always_zero (slot_with page_config [''A'', ''B''] [''X'']) page_world)))"
    using n by (metis prod.collapse)
  have v: "nameList (slot_with page_config [''A'', ''B''] [''X'']) = [''A'', ''B'']"
    "nameList (fst (snd (spin_to_await always_zero (slot_with page_config [''A'', ''B''] [''X'']) page_world))) = [''A'']"
    "drawHistory (fst (snd (spin_to_await always_zero (slot_with page_config [''A'', ''B''] [''X'']) page_world))) = [''B - X'']"
    by code_simp+
  from mutation_before_animation[OF e]
  show ?thesis using e v by simp
qed

section \<open>Removing the winner\<close>

text \<open>
  When the winner is a name of the list, \<open>findIndex\<close> finds its
  first occurrence and \<open>splice\<close> removes that one element. The winner is a name of the
  list whenever the reel sequence is not empty, that is whenever \<open>maxReelItems\<close>, less
  one if there is a previous winner, is at least 1.
\<close>

lemma findIndex_found:
  "x \<in> set xs \<Longrightarrow> P x \<Longrightarrow> 0 \<le> findIndex P xs \<and> findIndex P xs < int (length xs)"
  by (induction xs) (auto simp: Let_def)

lemma findIndex_Nil_splice: "splice1 (findIndex P []) [] = []"
  by (simp add: splice1_def)

lemma splice1_Cons_Suc: "0 \<le> r \<Longrightarrow> splice1 (r + 1) (y # ys) = y # splice1 r ys"
  by (simp add: splice1_def Let_def nat_add_distrib min_def)

lemma splice1_findIndex_remove1:
  "x \<in> set xs \<Longrightarrow> splice1 (findIndex (\<lambda>y. y = x) xs) xs = remove1 x xs"
proof (induction xs)
  case Nil
  then show ?case by simp
next
  case (Cons y ys)
  show ?case
  proof (cases "y = x")
    case True
    then show ?thesis by (simp add: splice1_def)
  next
    case False
    with Cons.prems have m: "x \<in> set ys" by simp
    from findIndex_found[OF m, of "\<lambda>y. y = x"]
    have r: "0 \<le> findIndex (\<lambda>y. y = x) ys" by simp
    have "findIndex (\<lambda>y. y = x) (y # ys) = findIndex (\<lambda>y. y = x) ys + 1"
      using False r by (simp add: Let_def)
    then show ?thesis
      using False r Cons.IH[OF m] by (simp add: splice1_Cons_Suc)
  qed
qed

lemma count_list_remove1:
  "x \<in> set xs \<Longrightarrow> count_list (remove1 x xs) x + 1 = count_list xs x"
  by (induction xs) auto

lemma js_last_reel_sequence_member:
  assumes "random_ok rnd" "length pool < 2 ^ 31" "pool \<noteq> []" "1 \<le> m - number_of_bool prev"
  shows "\<exists>x\<in>set pool.
     js_last (reel_sequence m prev (sh_result (shuffle_loop rnd p (shuffle_init pool)))) = Some x
   \<and> last (reel_sequence m prev (sh_result (shuffle_loop rnd p (shuffle_init pool)))) = Some x"
proof -
  let ?sh = "sh_result (shuffle_loop rnd p (shuffle_init pool))"
  let ?seq = "reel_sequence m prev ?sh"
  have m1: "1 \<le> m" using assms(4) by (simp add: number_of_bool_def split: if_splits)
  have ne: "?sh \<noteq> []" using assms(3) by (simp add: shuffle_result_Nil_iff)
  have "length ?seq = nat (m - number_of_bool prev)"
    using ne m1 by (rule reel_sequence_length)
  then have sne: "?seq \<noteq> []" using assms(4) by auto
  then have "last ?seq \<in> set ?seq" by simp
  moreover have "set ?seq \<subseteq> Some ` set pool"
    using reel_sequence_set[of m prev ?sh] assms(1,2) by (simp add: shuffle_result_set)
  ultimately obtain x where "x \<in> set pool" "last ?seq = Some x" by auto
  then show ?thesis using sne by (auto simp: js_last_def)
qed

lemma winner_removed_once:
  assumes t: "spin rnd s w = (Inr True, s', w')" and rm: "shouldRemoveWinner s"
    and ne: "nameList s \<noteq> []" and r: "random_ok rnd" and l: "length (nameList s) < 2 ^ 31"
    and m: "1 \<le> maxReelItems s - (if havePreviousWinner s then 1 else 0)"
  shows "\<exists>name\<in>set (nameList s). currentPlayer s' = Some name
           \<and> nameList s' = remove1 name (nameList s)
           \<and> count_list (nameList s') name + 1 = count_list (nameList s) name"
proof -
  have m': "1 \<le> maxReelItems s - number_of_bool (havePreviousWinner s)"
    using m by (simp add: number_of_bool_def)
  from js_last_reel_sequence_member[OF r l ne m', of "random_calls w"] obtain name where
    n: "name \<in> set (nameList s)"
    and w: "js_last (reel_sequence (maxReelItems s) (havePreviousWinner s)
              (shuffleNames rnd (random_calls w) (nameList s))) = Some name"
    by (auto simp: shuffleNames_def shuffleNames_vars_def)
  have cp: "currentPlayer s' = Some name"
    using spin_true_fields(1)[OF t] ne w by simp
  have "nameList s' = splice1 (findIndex (\<lambda>y. Some y = Some name) (nameList s)) (nameList s)"
    using spin_true_fields(2)[OF t] rm ne w by simp
  then have nl: "nameList s' = remove1 name (nameList s)"
    using n by (simp add: splice1_findIndex_remove1)
  show ?thesis
    using n cp nl count_list_remove1[OF n] by auto
qed

lemma prize_removed_once:
  assumes t: "spin rnd s w = (Inr True, s', w')" and rm: "shouldRemoveWinner s"
    and ne: "luckyMoneyList s \<noteq> []" and r: "random_ok rnd" and l: "length (luckyMoneyList s) < 2 ^ 31"
    and m: "1 \<le> maxReelItems s - (if havePreviousWinner s then 1 else 0)"
  shows "\<exists>prize\<in>set (luckyMoneyList s).
             js_last (reel_sequence (maxReelItems s) (havePreviousWinner s)
               (shuffleLuckyMoneys rnd (random_calls w + 7 * length (nameList s)) (luckyMoneyList s)))
               = Some prize
           \<and> luckyMoneyList s' = remove1 prize (luckyMoneyList s)
           \<and> count_list (luckyMoneyList s') prize + 1 = count_list (luckyMoneyList s) prize"
proof -
  have m': "1 \<le> maxReelItems s - number_of_bool (havePreviousWinner s)"
    using m by (simp add: number_of_bool_def)
  from js_last_reel_sequence_member[OF r l ne m', of "random_calls w + 7 * length (nameList s)"]
  obtain prize where
    n: "prize \<in> set (luckyMoneyList s)"
    and w: "js_last (reel_sequence (maxReelItems s) (havePreviousWinner s)
              (shuffleLuckyMoneys rnd (random_calls w + 7 * length (nameList s)) (luckyMoneyList s)))
            = Some prize"
    by (auto simp: shuffleLuckyMoneys_def shuffleLuckyMoneys_vars_def)
  have "luckyMoneyList s' = splice1 (findIndex (\<lambda>y. Some y = Some prize) (luckyMoneyList s)) (luckyMoneyList s)"
    using spin_true_fields(3)[OF t] rm w by simp
  then have nl: "luckyMoneyList s' = remove1 prize (luckyMoneyList s)"
    using n by (simp add: splice1_findIndex_remove1)
  show ?thesis
    using n w nl count_list_remove1[OF n] by auto
qed

text \<open>
  Claim C7, at a Slot whose reel holds one item (\<open>maxReelItems = 1\<close>), on the second
  draw. The first draw sets \<open>havePreviousWinner\<close>, so the second builds an empty
  sequence: the winner is \<open>undefined\<close>, \<open>findIndex\<close> returns \<open>-1\<close> and
  \<open>splice(-1, 1)\<close> removes the last name and the last prize. The name \<open>B\<close> leaves
  the list although it is not the declared winner, and the history entry is
  \<open>undefined - undefined\<close>.
\<close>

theorem undefined_winner_removes_last_name:
  "maxReelItems (fst (snd first_draw)) = 1
   \<and> fst first_draw = Inr True
   \<and> shouldRemoveWinner (fst (snd first_draw))
   \<and> nameList (fst (snd first_draw)) = [''B'']
   \<and> luckyMoneyList (fst (snd first_draw)) = [''Y'']
   \<and> fst second_draw = Inr True
   \<and> currentPlayer (fst (snd second_draw)) = None
   \<and> nameList (fst (snd second_draw)) = []
   \<and> luckyMoneyList (fst (snd second_draw)) = []
   \<and> drawHistory (fst (snd second_draw))
      = [''A - X'', ''undefined - undefined'', ''-------END-------'']"
  by code_simp

section \<open>The declared winner\<close>

text \<open>
  Claim C5. After a call of \<open>spin\<close> that resolves \<open>true\<close> on a name list that is not
  empty, \<open>currentPlayer\<close> is the element at the last index of the sequence built from the
  shuffled names (\<open>undefined\<close> if the sequence is empty, its last element otherwise). The
  winning prize is the element at the last index of the sequence built from the shuffled
  prizes: the history entry written when removal is enabled names it, and when the
  sequence is not empty it is the one item left on the reel. Both are read off the
  sequence; no further random value is drawn for them.
\<close>

theorem winner_is_last_of_sequence:
  assumes t: "spin rnd s w = (Inr True, s', w')"
  shows "(nameList s \<noteq> [] \<longrightarrow>
            currentPlayer s' = js_last (reel_sequence (maxReelItems s) (havePreviousWinner s)
              (shuffleNames rnd (random_calls w) (nameList s))))
       \<and> (nameList s \<noteq> [] \<and> 1 \<le> maxReelItems s - (if havePreviousWinner s then 1 else 0) \<longrightarrow>
            currentPlayer s' = last (reel_sequence (maxReelItems s) (havePreviousWinner s)
              (shuffleNames rnd (random_calls w) (nameList s))))
       \<and> (shouldRemoveWinner s \<longrightarrow>
            (\<exists>rest. drawHistory s' = drawHistory s @
               (to_str (currentPlayer s') @ '' - '' @
                to_str (js_last (reel_sequence (maxReelItems s) (havePreviousWinner s)
                  (shuffleLuckyMoneys rnd (random_calls w + 7 * length (nameList s)) (luckyMoneyList s)))))
               # rest))
       \<and> (luckyMoneyList s \<noteq> [] \<and> 1 \<le> maxReelItems s - (if havePreviousWinner s then 1 else 0) \<longrightarrow>
            js_last (reel_sequence (maxReelItems s) (havePreviousWinner s)
              (shuffleLuckyMoneys rnd (random_calls w + 7 * length (nameList s)) (luckyMoneyList s)))
            = last (reel_sequence (maxReelItems s) (havePreviousWinner s)
              (shuffleLuckyMoneys rnd (random_calls w + 7 * length (nameList s)) (luckyMoneyList s)))
          \<and> reelContainer s' = Some [to_str (last (reel_sequence (maxReelItems s) (havePreviousWinner s)
              (shuffleLuckyMoneys rnd (random_calls w + 7 * length (nameList s)) (luckyMoneyList s))))])"
proof -
  let ?names = "reel_sequence (maxReelItems s) (havePreviousWinner s)
              (shuffleNames rnd (random_calls w) (nameList s))"
  let ?prizes = "reel_sequence (maxReelItems s) (havePreviousWinner s)
              (shuffleLuckyMoneys rnd (random_calls w + 7 * length (nameList s)) (luckyMoneyList s))"
  have a: "nameList s \<noteq> [] \<Longrightarrow> currentPlayer s' = js_last ?names"
    using spin_true_fields(1)[OF t] by simp
  have len: "\<And>xs::string option list. xs \<noteq> [] \<Longrightarrow>
      1 \<le> maxReelItems s - (if havePreviousWinner s then 1 else 0) \<Longrightarrow>
      reel_sequence (maxReelItems s) (havePreviousWinner s) xs \<noteq> []"
  proof -
    fix xs :: "string option list"
    assume x: "xs \<noteq> []" and m: "1 \<le> maxReelItems s - (if havePreviousWinner s then 1 else 0)"
    have m1: "1 \<le> maxReelItems s" using m by (simp split: if_splits)
    have "length (reel_sequence (maxReelItems s) (havePreviousWinner s) xs)
        = nat (maxReelItems s - number_of_bool (havePreviousWinner s))"
      using x m1 by (rule reel_sequence_length)
    then show "reel_sequence (maxReelItems s) (havePreviousWinner s) xs \<noteq> []"
      using m by (auto simp: number_of_bool_def split: if_splits)
  qed
  have nne: "nameList s \<noteq> [] \<Longrightarrow> 1 \<le> maxReelItems s - (if havePreviousWinner s then 1 else 0)
      \<Longrightarrow> ?names \<noteq> []"
    by (rule len) (simp_all add: shuffleNames_def shuffleNames_vars_def shuffle_result_Nil_iff)
  have pne: "luckyMoneyList s \<noteq> [] \<Longrightarrow> 1 \<le> maxReelItems s - (if havePreviousWinner s then 1 else 0)
      \<Longrightarrow> ?prizes \<noteq> []"
    by (rule len) (simp_all add: shuffleLuckyMoneys_def shuffleLuckyMoneys_vars_def shuffle_result_Nil_iff)
  have b: "nameList s \<noteq> [] \<and> 1 \<le> maxReelItems s - (if havePreviousWinner s then 1 else 0)
      \<longrightarrow> currentPlayer s' = last ?names"
    using a nne by (simp add: js_last_nonempty)
  have c: "shouldRemoveWinner s \<longrightarrow>
            (\<exists>rest. drawHistory s' = drawHistory s @
               (to_str (currentPlayer s') @ '' - '' @ to_str (js_last ?prizes)) # rest)"
    using spin_true_fields(4)[OF t] spin_true_fields(1)[OF t] by simp
  have d: "luckyMoneyList s \<noteq> [] \<and> 1 \<le> maxReelItems s - (if havePreviousWinner s then 1 else 0) \<longrightarrow>
            js_last ?prizes = last ?prizes \<and> reelContainer s' = Some [to_str (last ?prizes)]"
  proof (intro impI, elim conjE)
    assume l: "luckyMoneyList s \<noteq> []" and m: "1 \<le> maxReelItems s - (if havePreviousWinner s then 1 else 0)"
    have p: "?prizes \<noteq> []" using l m by (rule pne)
    from spin_true_fields(6)[OF t] obtain children where
      "reelContainer s' = Some (trim_reel (children @ map to_str ?prizes))" by blast
    moreover have "trim_reel (children @ map to_str ?prizes) = [to_str (last ?prizes)]"
      using p by (simp add: trim_reel_last last_map)
    ultimately show "js_last ?prizes = last ?prizes \<and> reelContainer s' = Some [to_str (last ?prizes)]"
      using p by (simp add: js_last_nonempty)
  qed
  show ?thesis using a b c d by blast
qed

theorem winner_is_last_of_sequence_witness:
  "spin always_half (slot_with page_config [''A'', ''B'', ''C''] [''X'', ''Y'']) page_world
     = (Inr True,
        fst (snd (spin always_half (slot_with page_config [''A'', ''B'', ''C''] [''X'', ''Y'']) page_world)),
        snd (snd (spin always_half (slot_with page_config [''A'', ''B'', ''C''] [''X'', ''Y'']) page_world)))
   \<and> nameList (slot_with page_config [''A'', ''B'', ''C''] [''X'', ''Y'']) \<noteq> []
   \<and> luckyMoneyList (slot_with page_config [''A'', ''B'', ''C''] [''X'', ''Y'']) \<noteq> []
   \<and> shouldRemoveWinner (slot_with page_config [''A'', ''B'', ''C''] [''X'', ''Y''])
   \<and> maxReelItems (slot_with page_config [''A'', ''B'', ''C''] [''X'', ''Y'']) = 40
   \<and> \<not> havePreviousWinner (slot_with page_config [''A'', ''B'', ''C''] [''X'', ''Y''])
   \<and> last (reel_sequence 40 False (shuffleNames always_half 0 [''A'', ''B'', ''C''])) = Some ''B''
   \<and> currentPlayer (fst (snd (spin always_half (slot_with page_config [''A'', ''B'', ''C''] [''X'', ''Y'']) page_world)))
       = Some ''B''
   \<and> reelContainer (fst (snd (spin always_half (slot_with page_config [''A'', ''B'', ''C''] [''X'', ''Y'']) page_world)))
       = Some [''X'']"
proof -
  let ?s = "slot_with page_config [''A'', ''B'', ''C''] [''X'', ''Y'']"
  have t: "fst (spin always_half ?s page_world) = Inr True"
    by code_simp
  have e: "spin always_half ?s page_world
     = (Inr True, fst (snd (spin always_half ?s page_world)), snd (snd (spin always_half ?s page_world)))"
    using t by (metis prod.collapse)
  have f: "nameList ?s = [''A'', ''B'', ''C'']" "luckyMoneyList ?s = [''X'', ''Y'']"
    "shouldRemoveWinner ?s = True" "maxReelItems ?s = 40" "havePreviousWinner ?s = False"
    "random_calls page_world = 0"
    by code_simp+
  have v: "last (reel_sequence 40 False (shuffleNames always_half 0 [''A'', ''B'', ''C''])) = Some ''B''"
    "last (reel_sequence 40 False (shuffleLuckyMoneys always_half 21 [''X'', ''Y''])) = Some ''X''"
    by code_simp+
  note th = winner_is_last_of_sequence[OF e]
  have c0: "nameList ?s \<noteq> [] \<and> 1 \<le> maxReelItems ?s - (if havePreviousWinner ?s then 1 else 0)"
    and d0: "luckyMoneyList ?s \<noteq> [] \<and> 1 \<le> maxReelItems ?s - (if havePreviousWinner ?s then 1 else 0)"
    by (simp_all add: f)
  from th c0 have "currentPlayer (fst (snd (spin always_half ?s page_world)))
      = last (reel_sequence (maxReelItems ?s) (havePreviousWinner ?s)
              (shuffleNames always_half (random_calls page_world) (nameList ?s)))"
    by blast
  then have c: "currentPlayer (fst (snd (spin always_half ?s page_world))) = Some ''B''"
    using v(1) by (simp add: f)
  from th d0 have "reelContainer (fst (snd (spin always_half ?s page_world)))
      = Some [to_str (last (reel_sequence (maxReelItems ?s) (havePreviousWinner ?s)
              (shuffleLuckyMoneys always_half (random_calls page_world + 7 * length (nameList ?s))
                 (luckyMoneyList ?s))))]"
    by blast
  then have d: "reelContainer (fst (snd (spin always_half ?s page_world))) = Some [''X'']"
    using v(2) by (simp add: f to_str_def)
  show ?thesis using e v(1) c d by (simp add: f)
qed

section \<open>The draw history\<close>

text \<open>
  Claim C8. A Slot is constructed with \<open>maxReelItems\<close> at least 1 (given or by default)
  and removal enabled, on a page that has the reel and the \<open>current-player\<close> element;
  \<open>names\<close> is set to \<open>["A"]\<close> and \<open>luckyMoneys\<close> to \<open>["X"]\<close>. Then one call of
  \<open>spin\<close> resolves \<open>true\<close> and leaves both lists empty and the history
  \<open>["A - X", "-------END-------"]\<close>. In general, a call that resolves \<open>true\<close> appends
  to the history one entry, followed by the end marker exactly when both lists are empty
  afterwards, if removal is enabled, and appends nothing otherwise.
\<close>

theorem single_name_single_prize_draw:
  "(1 \<le> maxReelItems (new_Slot cfg) \<and> shouldRemoveWinner (new_Slot cfg)
      \<and> cfg_reelContainer cfg \<noteq> None \<and> currentPlayerElement w \<noteq> None \<and> random_ok rnd \<longrightarrow>
      (\<exists>s' w'. spin rnd (slot_with cfg [''A''] [''X'']) w = (Inr True, s', w')
         \<and> nameList s' = [] \<and> luckyMoneyList s' = []
         \<and> drawHistory s' = [''A - X'', ''-------END-------'']))
   \<and> (spin rnd s0 w0 = (Inr True, s1, w1) \<longrightarrow>
        (shouldRemoveWinner s0 \<longrightarrow>
           (\<exists>entry. entry \<noteq> ''-------END-------''
              \<and> drawHistory s1 = drawHistory s0 @ entry
                   # (if nameList s1 = [] \<and> luckyMoneyList s1 = [] then [''-------END-------''] else [])))
      \<and> (\<not> shouldRemoveWinner s0 \<longrightarrow> drawHistory s1 = drawHistory s0))"
proof -
  have part1: "\<exists>s' w'. spin rnd (slot_with cfg [''A''] [''X'']) w = (Inr True, s', w')
         \<and> nameList s' = [] \<and> luckyMoneyList s' = []
         \<and> drawHistory s' = [''A - X'', ''-------END-------'']"
    if m: "1 \<le> maxReelItems (new_Slot cfg)" and rm: "shouldRemoveWinner (new_Slot cfg)"
      and rc: "cfg_reelContainer cfg \<noteq> None" and el: "currentPlayerElement w \<noteq> None"
      and r: "random_ok rnd"
  proof -
    let ?s = "slot_with cfg [''A''] [''X'']"
    have f: "nameList ?s = [''A'']" "luckyMoneyList ?s = [''X'']" "drawHistory ?s = []"
      "havePreviousWinner ?s = False" "maxReelItems ?s = maxReelItems (new_Slot cfg)"
      "shouldRemoveWinner ?s" "reelContainer ?s \<noteq> None" "reelAnimation ?s \<noteq> None"
      using rm rc
      by (auto simp: slot_with_def set_names_def set_luckyMoneys_def Let_def new_Slot_def
          split: option.splits)
    have "fst (spin rnd ?s w) = Inr True"
      using f el by (intro spin_resolves_true) simp_all
    then obtain s' w' where t: "spin rnd ?s w = (Inr True, s', w')"
      by (metis prod.collapse)
    have m': "1 \<le> maxReelItems ?s - (if havePreviousWinner ?s then 1 else 0)"
      using m f by simp
    from winner_removed_once[OF t f(6) _ r _ m'] f(1)
    have n: "nameList s' = []" by auto
    from prize_removed_once[OF t f(6) _ r _ m'] f(1,2)
    have p: "luckyMoneyList s' = []"
      and pz: "js_last (reel_sequence (maxReelItems ?s) (havePreviousWinner ?s)
               (shuffleLuckyMoneys rnd (random_calls w + 7 * length (nameList ?s)) (luckyMoneyList ?s)))
               = Some ''X''"
      by auto
    from winner_removed_once[OF t f(6) _ r _ m'] f(1)
    have cp: "js_last (reel_sequence (maxReelItems ?s) (havePreviousWinner ?s)
              (shuffleNames rnd (random_calls w) (nameList ?s))) = Some ''A''"
      using spin_true_fields(1)[OF t] by auto
    have h: "drawHistory s' = [''A - X'', ''-------END-------'']"
      using spin_true_fields(4)[OF t] n p f(1,3,6) unfolding pz cp
      by (simp add: to_str_def)
    show ?thesis using t n p h by blast
  qed
  have part2: "(shouldRemoveWinner s0 \<longrightarrow>
           (\<exists>entry. entry \<noteq> ''-------END-------''
              \<and> drawHistory s1 = drawHistory s0 @ entry
                   # (if nameList s1 = [] \<and> luckyMoneyList s1 = [] then [''-------END-------''] else [])))
      \<and> (\<not> shouldRemoveWinner s0 \<longrightarrow> drawHistory s1 = drawHistory s0)"
    if t: "spin rnd s0 w0 = (Inr True, s1, w1)"
  proof -
    let ?entry = "to_str (if nameList s0 = [] then currentPlayer s0
              else js_last (reel_sequence (maxReelItems s0) (havePreviousWinner s0)
                     (shuffleNames rnd (random_calls w0) (nameList s0)))) @ '' - '' @
       to_str (js_last (reel_sequence (maxReelItems s0) (havePreviousWinner s0)
           (shuffleLuckyMoneys rnd (random_calls w0 + 7 * length (nameList s0)) (luckyMoneyList s0))))"
    have "CHR '' '' \<in> set ?entry" by simp
    moreover have "CHR '' '' \<notin> set ''-------END-------''" by simp
    ultimately have ne: "?entry \<noteq> ''-------END-------''" by metis
    have h: "shouldRemoveWinner s0 \<Longrightarrow> drawHistory s1 = drawHistory s0 @ ?entry
        # (if nameList s1 = [] \<and> luckyMoneyList s1 = [] then [''-------END-------''] else [])"
      using spin_true_fields(4)[OF t] by simp
    have k: "\<not> shouldRemoveWinner s0 \<Longrightarrow> drawHistory s1 = drawHistory s0"
      using spin_true_fields(4)[OF t] by simp
    show ?thesis using ne h k by blast
  qed
  show ?thesis using part1 part2 by blast
qed

theorem single_name_single_prize_draw_witness:
  "1 \<le> maxReelItems (new_Slot page_config) \<and> shouldRemoveWinner (new_Slot page_config)
   \<and> cfg_reelContainer page_config \<noteq> None \<and> currentPlayerElement page_world \<noteq> None
   \<and> random_ok always_half
   \<and> spin always_half (slot_with page_config [''A''] [''X'']) page_world
       = (Inr True,
          fst (snd (spin always_half (slot_with page_config [''A''] [''X'']) page_world)),
          snd (snd (spin always_half (slot_with page_config [''A''] [''X'']) page_world)))
   \<and> nameList (fst (snd (spin always_half (slot_with page_config [''A''] [''X'']) page_world))) = []
   \<and> luckyMoneyList (fst (snd (spin always_half (slot_with page_config [''A''] [''X'']) page_world))) = []
   \<and> drawHistory (fst (snd (spin always_half (slot_with page_config [''A''] [''X'']) page_world)))
       = [''A - X'', ''-------END-------'']"
proof -
  let ?s = "slot_with page_config [''A''] [''X'']"
  have h: "1 \<le> maxReelItems (new_Slot page_config)" "shouldRemoveWinner (new_Slot page_config)"
    "cfg_reelContainer page_config \<noteq> None" "currentPlayerElement page_world \<noteq> None"
    by (simp_all add: new_Slot_def page_config_def page_world_def)
  have r: "random_ok always_half" by (simp add: random_ok_def always_half_def)
  have t: "fst (spin always_half ?s page_world) = Inr True"
    by code_simp
  have e: "spin always_half ?s page_world
     = (Inr True, fst (snd (spin always_half ?s page_world)), snd (snd (spin always_half ?s page_world)))"
    using t by (metis prod.collapse)
  from single_name_single_prize_draw[of page_config page_world always_half] h r
  obtain s' w' where
    a: "spin always_half ?s page_world = (Inr True, s', w')"
    and b: "nameList s' = []" "luckyMoneyList s' = []"
      "drawHistory s' = [''A - X'', ''-------END-------'']"
    by blast
  have "fst (snd (spin always_half ?s page_world)) = s'" by (simp add: a)
  then show ?thesis using h r e b by simp
qed

section \<open>A draw with an empty prize list\<close>

text \<open>
  With removal enabled, a name list that is not empty, an empty prize list, and a page
  that has the reel container (hence the animation) and the \<open>current-player\<close> element,
  \<open>spin\<close> resolves \<open>true\<close>. The prize list stays empty and the entry appended to the
  history is the winner followed by \<open>- undefined\<close> (and then the end marker, if no name
  is left). When the reel sequence is not empty (\<open>maxReelItems\<close>, less one if there is a
  previous winner, is at least 1) the winner is a name of the list and its first
  occurrence is removed.
\<close>

lemma empty_prize_list_draw:
  assumes rm: "shouldRemoveWinner s" and ne: "nameList s \<noteq> []" and em: "luckyMoneyList s = []"
    and rc: "reelContainer s \<noteq> None" and ra: "reelAnimation s \<noteq> None"
    and el: "currentPlayerElement w \<noteq> None"
  shows "\<exists>s' w'. spin rnd s w = (Inr True, s', w')
       \<and> luckyMoneyList s' = []
       \<and> drawHistory s' = drawHistory s @ [to_str (currentPlayer s') @ '' - undefined'']
           @ (if nameList s' = [] then [''-------END-------''] else [])
       \<and> (random_ok rnd \<and> length (nameList s) < 2 ^ 31
            \<and> 1 \<le> maxReelItems s - (if havePreviousWinner s then 1 else 0) \<longrightarrow>
          (\<exists>name\<in>set (nameList s). currentPlayer s' = Some name
             \<and> nameList s' = remove1 name (nameList s)
             \<and> count_list (nameList s') name + 1 = count_list (nameList s) name))"
proof -
  have "fst (spin rnd s w) = Inr True"
    using ne el rc ra by (intro spin_resolves_true) simp_all
  then obtain s' w' where t: "spin rnd s w = (Inr True, s', w')"
    by (metis prod.collapse)
  have pz: "reel_sequence (maxReelItems s) (havePreviousWinner s)
      (shuffleLuckyMoneys rnd (random_calls w + 7 * length (nameList s)) (luckyMoneyList s)) = []"
    unfolding em shuffleLuckyMoneys_def shuffleLuckyMoneys_vars_def
    using shuffle_result_Nil_iff[of rnd "random_calls w + 7 * length (nameList s)" "[]::string list"]
    by (simp add: reel_sequence_Nil)
  have l: "luckyMoneyList s' = []"
    using spin_true_fields(3)[OF t] em by (simp add: splice1_def)
  have h: "drawHistory s' = drawHistory s @ [to_str (currentPlayer s') @ '' - undefined'']
           @ (if nameList s' = [] then [''-------END-------''] else [])"
    using spin_true_fields(4)[OF t] spin_true_fields(1)[OF t] rm l
    unfolding pz by (simp add: js_last_def to_str_def)
  have w: "random_ok rnd \<and> length (nameList s) < 2 ^ 31
            \<and> 1 \<le> maxReelItems s - (if havePreviousWinner s then 1 else 0) \<longrightarrow>
          (\<exists>name\<in>set (nameList s). currentPlayer s' = Some name
             \<and> nameList s' = remove1 name (nameList s)
             \<and> count_list (nameList s') name + 1 = count_list (nameList s) name)"
    using winner_removed_once[OF t rm ne] by blast
  show ?thesis using t l h w by blast
qed

text \<open>
  Claim C10, at a Slot whose reel holds one item (\<open>maxReelItems = 1\<close>), with three names
  and no prize, on the second draw. Removal is enabled, the name list is not empty, the
  prize list is empty, and \<open>spin\<close> resolves \<open>true\<close>; the prize list stays empty. But the
  first draw has set \<open>havePreviousWinner\<close>, so the sequence of names is empty: the winner
  is \<open>undefined\<close>, the entry appended is \<open>undefined - undefined\<close>, and
  \<open>splice(-1, 1)\<close> removes the last name \<open>C\<close>, which is not the winner. The first
  draw, from the same lists, does what the claim says: the winner \<open>A\<close> is removed and
  the entry is \<open>A - undefined\<close>.
\<close>

theorem undefined_winner_with_empty_prize_list:
  "fst first_draw_no_prize = Inr True
   \<and> currentPlayer (fst (snd first_draw_no_prize)) = Some ''A''
   \<and> drawHistory (fst (snd first_draw_no_prize)) = [''A - undefined'']
   \<and> maxReelItems (fst (snd first_draw_no_prize)) = 1
   \<and> havePreviousWinner (fst (snd first_draw_no_prize))
   \<and> shouldRemoveWinner (fst (snd first_draw_no_prize))
   \<and> nameList (fst (snd first_draw_no_prize)) = [''B'', ''C'']
   \<and> luckyMoneyList (fst (snd first_draw_no_prize)) = []
   \<and> fst second_draw_no_prize = Inr True
   \<and> currentPlayer (fst (snd second_draw_no_prize)) = None
   \<and> nameList (fst (snd second_draw_no_prize)) = [''B'']
   \<and> luckyMoneyList (fst (snd second_draw_no_prize)) = []
   \<and> drawHistory (fst (snd second_draw_no_prize))
      = [''A - undefined'', ''undefined - undefined'']"
  by code_simp

end
